theory Spec2Isabelle
  imports Main "HOL-Library.Multiset"
begin

section \<open>Python primitives used by the chapter model\<close>

text \<open>
  The chapter model of the audiobook generator (\<^verbatim>\<open>core/chapter_manager.py\<close>) and the MDTA
  tag formatter (\<^verbatim>\<open>core/m4b_creator.py\<close>) are embedded as HOL functions.
  A Python \<^verbatim>\<open>str\<close> is a \<^typ>\<open>string\<close> whose characters are the code points below 256, a
  Python \<^verbatim>\<open>int\<close> is an \<^typ>\<open>int\<close>, \<^verbatim>\<open>Optional[int]\<close> is \<^typ>\<open>int option\<close>.
  The interpreter's configurable limit on the number of digits of an int/str conversion
  is not part of the model: conversions are total on all integers.
\<close>

subsection \<open>Character classes\<close>

text \<open>\<^verbatim>\<open>str.isspace\<close> and the regular-expression class \<^verbatim>\<open>\s\<close> on code points below 256.\<close>

definition py_isspace :: "char \<Rightarrow> bool" where
  "py_isspace c =
     (let n = (of_char c :: nat)
      in (9 \<le> n \<and> n \<le> 13) \<or> (28 \<le> n \<and> n \<le> 32) \<or> n = 133 \<or> n = 160)"

text \<open>The white space \<^verbatim>\<open>int()\<close> skips around a literal: it does not skip the separators 28..31.\<close>

definition py_int_space :: "char \<Rightarrow> bool" where
  "py_int_space c =
     (let n = (of_char c :: nat)
      in (9 \<le> n \<and> n \<le> 13) \<or> n = 32 \<or> n = 133 \<or> n = 160)"

text \<open>The class \<^verbatim>\<open>\d\<close>, and the decimal digits \<^verbatim>\<open>int()\<close> accepts, below 256.\<close>

definition is_digit :: "char \<Rightarrow> bool" where
  "is_digit c = (let n = (of_char c :: nat) in 48 \<le> n \<and> n \<le> 57)"

definition digit_val :: "char \<Rightarrow> nat" where
  "digit_val c = of_char c - 48"

definition digit_char :: "nat \<Rightarrow> char" where
  "digit_char d = ''0123456789'' ! d"

text \<open>Case folding of \<^verbatim>\<open>re.IGNORECASE\<close> restricted to the letters the patterns contain.\<close>

definition lower_ascii :: "char \<Rightarrow> char" where
  "lower_ascii c =
     (case map_of (zip ''ABCDEFGHIJKLMNOPQRSTUVWXYZ'' ''abcdefghijklmnopqrstuvwxyz'') c of
        Some l \<Rightarrow> l
      | None \<Rightarrow> c)"

subsection \<open>Integers to text\<close>

text \<open>\<^verbatim>\<open>str(n)\<close> for a natural number.\<close>

function str_nat :: "nat \<Rightarrow> string" where
  "str_nat n = (if n < 10 then [digit_char n] else str_nat (n div 10) @ [digit_char (n mod 10)])"
  by pat_completeness auto
termination
  by (relation "measure id") auto

declare str_nat.simps [simp del]

text \<open>\<^verbatim>\<open>str(i)\<close>, also the rendering of \<^verbatim>\<open>{i}\<close> in an f-string.\<close>

definition str_int :: "int \<Rightarrow> string" where
  "str_int i = (if i < 0 then CHR ''-'' # str_nat (nat (- i)) else str_nat (nat i))"

text \<open>The format specification \<^verbatim>\<open>{i:0wd}\<close>: sign first, then zeros up to width \<open>w\<close>.\<close>

definition py_fmt0 :: "nat \<Rightarrow> int \<Rightarrow> string" where
  "py_fmt0 w i =
     (let ds = str_nat (nat \<bar>i\<bar>);
          sgn = (if i < 0 then ''-'' else [])
      in sgn @ replicate (w - length sgn - length ds) (CHR ''0'') @ ds)"

subsection \<open>Text to integers\<close>

text \<open>Decimal digits with single underscores between them (PEP 515).\<close>

fun digits_ok :: "string \<Rightarrow> bool" where
  "digits_ok [] = False"
| "digits_ok [c] = is_digit c"
| "digits_ok (c # d # cs) =
     (is_digit c \<and> (if d = CHR ''_'' then digits_ok cs else digits_ok (d # cs)))"

definition nat_of_digits :: "string \<Rightarrow> nat" where
  "nat_of_digits ds = foldl (\<lambda>a c. 10 * a + digit_val c) 0 ds"

text \<open>\<^verbatim>\<open>int(s)\<close> in base 10; \<open>None\<close> is the \<^verbatim>\<open>ValueError\<close> for an invalid literal.\<close>

definition py_int :: "string \<Rightarrow> int option" where
  "py_int s =
     (let t = rev (dropWhile py_int_space (rev (dropWhile py_int_space s)))
      in case t of
           [] \<Rightarrow> None
         | c # r \<Rightarrow>
             (let neg = (c = CHR ''-'');
                  body = (if c = CHR ''-'' \<or> c = CHR ''+'' then r else t)
              in if digits_ok body
                 then Some ((if neg then - 1 else 1) *
                            int (nat_of_digits (filter (\<lambda>x. x \<noteq> CHR ''_'') body)))
                 else None))"

subsection \<open>String methods\<close>

text \<open>\<^verbatim>\<open>s.strip()\<close>.\<close>

definition py_strip :: "string \<Rightarrow> string" where
  "py_strip s = rev (dropWhile py_isspace (rev (dropWhile py_isspace s)))"

text \<open>\<^verbatim>\<open>s.split(sep)\<close> for a one-character separator: one more part than separators.\<close>

fun py_split :: "char \<Rightarrow> string \<Rightarrow> string list" where
  "py_split sep [] = [[]]"
| "py_split sep (c # cs) =
     (if c = sep then [] # py_split sep cs
      else (case py_split sep cs of
              [] \<Rightarrow> [[c]]
            | p # ps \<Rightarrow> (c # p) # ps))"

text \<open>\<^verbatim>\<open>s.ljust(w, fill)\<close>.\<close>

definition py_ljust :: "nat \<Rightarrow> char \<Rightarrow> string \<Rightarrow> string" where
  "py_ljust w fill s = s @ replicate (w - length s) fill"

text \<open>
  \<^verbatim>\<open>re.sub(r"C+", " ", s)\<close> for a character class \<open>C\<close>: every maximal run of characters
  of the class becomes one space.
\<close>

function collapse_runs :: "(char \<Rightarrow> bool) \<Rightarrow> string \<Rightarrow> string" where
  "collapse_runs P [] = []"
| "collapse_runs P (c # cs) =
     (if P c then CHR '' '' # collapse_runs P (dropWhile P cs) else c # collapse_runs P cs)"
  by pat_completeness auto
termination
  by (relation "measure (\<lambda>(P, s). length s)") (auto simp: length_dropWhile_le less_Suc_eq_le)

text \<open>
  The outcome of a call: it returns a value, it raises, or it lies outside the fragment
  that is modelled, and then the model says nothing about it.
\<close>

datatype 'a outcome = Returns 'a | Raises | Unmodelled

text \<open>
  \<^verbatim>\<open>pattern.format(num=i)\<close>, read from left to right. The fragment modelled is literal
  text, the doubled braces and the plain field \<^verbatim>\<open>{num}\<close>.
  \<^item> \<open>Raises\<close>: a single closing brace, an opening brace with no field after it
    (\<^verbatim>\<open>ValueError\<close>), or a field whose name is not \<^verbatim>\<open>num\<close> (\<^verbatim>\<open>KeyError\<close>, or
    \<^verbatim>\<open>IndexError\<close> for an empty or numeric name, or \<^verbatim>\<open>ValueError\<close>).
  \<^item> \<open>Unmodelled\<close>: a field that names \<^verbatim>\<open>num\<close> and goes on with an attribute, an index,
    a conversion or a format specification, as \<^verbatim>\<open>{num:02d}\<close> does; Python returns a text
    for some of these and raises for others.
\<close>

function py_format_num :: "string \<Rightarrow> int \<Rightarrow> string outcome" where
  "py_format_num [] i = Returns []"
| "py_format_num (c # cs) i =
     (if c = CHR ''{'' then
        (if take 1 cs = ''{'' then map_outcome ((#) (CHR ''{'')) (py_format_num (drop 1 cs) i)
         else if take 4 cs = ''num}'' then map_outcome ((@) (str_int i)) (py_format_num (drop 4 cs) i)
         else if take 3 cs = ''num'' \<and> take 1 (drop 3 cs) \<in> set [''.'', ''['', ''!'', '':'']
              then Unmodelled
         else Raises)
      else if c = CHR ''}'' then
        (if take 1 cs = ''}'' then map_outcome ((#) (CHR ''}'')) (py_format_num (drop 1 cs) i)
         else Raises)
      else map_outcome ((#) c) (py_format_num cs i))"
  by pat_completeness auto
termination
  by (relation "measure (\<lambda>(s, i). length s)") auto

section \<open>Chapter\<close>

record Chapter =
  title :: string
  start_ms :: int
  duration_ms :: "int option"
  file_path :: "string option"

subsection \<open>Title cleaning\<close>

text \<open>One of the extensions of \<^verbatim>\<open>\.(mp3|m4a|m4b)\<close>, ignoring case.\<close>

definition is_audio_ext :: "string \<Rightarrow> bool" where
  "is_audio_ext e = (map lower_ascii e \<in> set [''.mp3'', ''.m4a'', ''.m4b''])"

definition ends_with_ext :: "string \<Rightarrow> bool" where
  "ends_with_ext s = is_audio_ext (drop (length s - 4) s)"

text \<open>
  \<^verbatim>\<open>re.search(r"\.(mp3|m4a|m4b)$", title, flags=re.IGNORECASE)\<close>: the anchor \<^verbatim>\<open>$\<close>
  matches at the end of the text and also just before a newline that ends the text.
\<close>

definition has_extension :: "string \<Rightarrow> bool" where
  "has_extension s =
     (ends_with_ext s \<or> (s \<noteq> [] \<and> last s = CHR 0x0A \<and> ends_with_ext (butlast s)))"

text \<open>\<^verbatim>\<open>re.sub(r"\.(mp3|m4a|m4b)$", "", title, flags=re.IGNORECASE)\<close>.\<close>

definition strip_extension :: "string \<Rightarrow> string" where
  "strip_extension s =
     (if ends_with_ext s then take (length s - 4) s
      else if s \<noteq> [] \<and> last s = CHR 0x0A \<and> ends_with_ext (butlast s)
           then take (length s - 5) s @ [CHR 0x0A]
      else s)"

text \<open>The separator class \<^verbatim>\<open>[\s\-_\.]\<close>.\<close>

definition is_label_sep :: "char \<Rightarrow> bool" where
  "is_label_sep c = (py_isspace c \<or> c = CHR ''-'' \<or> c = CHR ''_'' \<or> c = CHR ''.'')"

text \<open>
  The match of \<^verbatim>\<open>^(track\s*)?\d+[\s\-_\.]+\<close> (ignoring case) at the start of the text:
  \<open>Some\<close> of what follows the match, \<open>None\<close> when there is no match. The three
  repetitions are over disjoint classes, so the greedy match is the only one.
\<close>

definition label_rest :: "string \<Rightarrow> string option" where
  "label_rest s =
     (let r1 = (if map lower_ascii (take 5 s) = ''track''
                then dropWhile py_isspace (drop 5 s) else s);
          r2 = dropWhile is_digit r1;
          r3 = dropWhile is_label_sep r2
      in if takeWhile is_digit r1 \<noteq> [] \<and> takeWhile is_label_sep r2 \<noteq> [] then Some r3
         else None)"

text \<open>\<^verbatim>\<open>Chapter._clean_title\<close>.\<close>

definition clean_title :: "string \<Rightarrow> string" where
  "clean_title t =
     (let original = t;
          has_ext = has_extension t;
          t1 = strip_extension t;
          t2 = (if has_ext \<or> label_rest t1 \<noteq> None
                then (case label_rest t1 of Some r \<Rightarrow> r | None \<Rightarrow> t1)
                else t1);
          t3 = collapse_runs (\<lambda>c. c = CHR ''_'') t2;
          t4 = collapse_runs py_isspace t3;
          result = py_strip t4
      in if result \<noteq> [] then result else original)"

text \<open>The dataclass constructor followed by \<^verbatim>\<open>__post_init__\<close>.\<close>

definition Chapter_init :: "string \<Rightarrow> int \<Rightarrow> int option \<Rightarrow> string option \<Rightarrow> Chapter" where
  "Chapter_init t s d p =
     \<lparr>title = clean_title t, start_ms = s, duration_ms = d, file_path = p\<rparr>"

text \<open>\<^verbatim>\<open>Chapter.to_ffmpeg_format\<close>; the duration is tested for truth, so \<open>0\<close> counts as absent.\<close>

definition to_ffmpeg_format :: "Chapter \<Rightarrow> string" where
  "to_ffmpeg_format ch =
     (let end_ms = (case duration_ms ch of
                      Some d \<Rightarrow> if d \<noteq> 0 then start_ms ch + d else start_ms ch
                    | None \<Rightarrow> start_ms ch)
      in ''[CHAPTER]\<newline>TIMEBASE=1/1000\<newline>START='' @ str_int (start_ms ch) @
         ''\<newline>END='' @ str_int end_ms @
         ''\<newline>title='' @ title ch @ ''\<newline>'')"

section \<open>ChapterManager\<close>

record ChapterManager =
  chapters :: "Chapter list"
  last_create_stats :: "(string \<times> nat) list"

datatype error =
    ValueError_unpack
  | ValueError_literal string
  | ValueError_format string
  | IndexError

text \<open>
  The first three are Python's \<^verbatim>\<open>ValueError\<close>:
  \<^item> \<open>ValueError_unpack\<close>: "too many values to unpack (expected 2)", from the tuple
    assignment of \<^verbatim>\<open>time_str.split(".")\<close>;
  \<^item> \<open>ValueError_literal l\<close>: "invalid literal for int() with base 10", naming the
    argument \<open>l\<close> of \<^verbatim>\<open>int\<close>;
  \<^item> \<open>ValueError_format s\<close>: the explicit "Invalid timestamp format: s".

  \<open>IndexError\<close> is "list index out of range", from reading a list at an index.
\<close>

definition in_range :: "int \<Rightarrow> 'a list \<Rightarrow> bool" where
  "in_range index xs = (0 \<le> index \<and> index < int (length xs))"

definition add_chapter ::
  "ChapterManager \<Rightarrow> string \<Rightarrow> int \<Rightarrow> int option \<Rightarrow> string option \<Rightarrow> ChapterManager \<times> Chapter"
where
  "add_chapter m t s d p =
     (let ch = Chapter_init t s d p in (m\<lparr>chapters := chapters m @ [ch]\<rparr>, ch))"

text \<open>\<^verbatim>\<open>list.pop(i)\<close> for an index in range: the list without its \<open>i\<close>-th element.\<close>

definition pop_at :: "nat \<Rightarrow> 'a list \<Rightarrow> 'a list" where
  "pop_at i xs = take i xs @ drop (Suc i) xs"

text \<open>\<^verbatim>\<open>list.insert(i, x)\<close> for \<open>0 \<le> i\<close>.\<close>

definition insert_at :: "nat \<Rightarrow> 'a \<Rightarrow> 'a list \<Rightarrow> 'a list" where
  "insert_at i x xs = take i xs @ x # drop i xs"

definition remove_chapter :: "ChapterManager \<Rightarrow> int \<Rightarrow> ChapterManager" where
  "remove_chapter m index =
     (if in_range index (chapters m)
      then m\<lparr>chapters := pop_at (nat index) (chapters m)\<rparr>
      else m)"

definition update_chapter ::
  "ChapterManager \<Rightarrow> int \<Rightarrow> string option \<Rightarrow> int option \<Rightarrow> int option \<Rightarrow> ChapterManager"
where
  "update_chapter m index new_title new_start new_duration =
     (if in_range index (chapters m)
      then (let ch = chapters m ! nat index;
                ch1 = (case new_title of Some t \<Rightarrow> ch\<lparr>title := clean_title t\<rparr> | None \<Rightarrow> ch);
                ch2 = (case new_start of Some s \<Rightarrow> ch1\<lparr>start_ms := s\<rparr> | None \<Rightarrow> ch1);
                ch3 = (case new_duration of Some d \<Rightarrow> ch2\<lparr>duration_ms := Some d\<rparr> | None \<Rightarrow> ch2)
            in m\<lparr>chapters := (chapters m)[nat index := ch3]\<rparr>)
      else m)"

definition reorder_chapter :: "ChapterManager \<Rightarrow> int \<Rightarrow> int \<Rightarrow> ChapterManager" where
  "reorder_chapter m from_index to_index =
     (if in_range from_index (chapters m) \<and> in_range to_index (chapters m)
      then (let ch = chapters m ! nat from_index;
                rest = pop_at (nat from_index) (chapters m)
            in m\<lparr>chapters := insert_at (nat to_index) ch rest\<rparr>)
      else m)"

definition sort_by_start_time :: "ChapterManager \<Rightarrow> ChapterManager" where
  "sort_by_start_time m = m\<lparr>chapters := sort_key start_ms (chapters m)\<rparr>"

subsection \<open>Timestamp codec\<close>

text \<open>Sequencing of fallible steps: the first error is the result, as the first raise is.\<close>

definition bind_err :: "error + 'a \<Rightarrow> ('a \<Rightarrow> error + 'b) \<Rightarrow> error + 'b" where
  "bind_err r f = (case r of Inl e \<Rightarrow> Inl e | Inr v \<Rightarrow> f v)"

definition int_lit :: "string \<Rightarrow> error + int" where
  "int_lit s = (case py_int s of None \<Rightarrow> Inl (ValueError_literal s) | Some v \<Rightarrow> Inr v)"

text \<open>
  The first half of \<^verbatim>\<open>_parse_timestamp\<close>: with a dot in the text, the text is split at
  every dot and assigned to exactly two names; the fraction is padded with zeros and cut
  to three characters before \<^verbatim>\<open>int\<close> reads it.
\<close>

definition split_fraction :: "string \<Rightarrow> error + (string \<times> int)" where
  "split_fraction time_str =
     (if CHR ''.'' \<in> set time_str
      then (case py_split (CHR ''.'') time_str of
              [time_part, ms_part] \<Rightarrow>
                bind_err (int_lit (take 3 (py_ljust 3 (CHR ''0'') ms_part)))
                  (\<lambda>ms. Inr (time_part, ms))
            | _ \<Rightarrow> Inl ValueError_unpack)
      else Inr (time_str, 0))"

text \<open>The branches on \<^verbatim>\<open>len(parts)\<close>; \<^verbatim>\<open>map(int, parts)\<close> converts from left to right.\<close>

fun parse_parts :: "string \<Rightarrow> string list \<Rightarrow> error + (int \<times> int \<times> int)" where
  "parse_parts time_str [h, m, s] =
     bind_err (int_lit h) (\<lambda>hours.
     bind_err (int_lit m) (\<lambda>minutes.
     bind_err (int_lit s) (\<lambda>seconds. Inr (hours, minutes, seconds))))"
| "parse_parts time_str [m, s] =
     bind_err (int_lit m) (\<lambda>minutes.
     bind_err (int_lit s) (\<lambda>seconds. Inr (0, minutes, seconds)))"
| "parse_parts time_str [s] =
     bind_err (int_lit s) (\<lambda>seconds. Inr (0, 0, seconds))"
| "parse_parts time_str parts = Inl (ValueError_format time_str)"

text \<open>\<^verbatim>\<open>ChapterManager._parse_timestamp\<close>.\<close>

definition parse_timestamp :: "string \<Rightarrow> error + int" where
  "parse_timestamp time_str =
     bind_err (split_fraction time_str) (\<lambda>(time_part, ms).
     bind_err (parse_parts time_str (py_split (CHR '':'') time_part)) (\<lambda>(hours, minutes, seconds).
       Inr ((hours * 3600 + minutes * 60 + seconds) * 1000 + ms)))"

text \<open>\<^verbatim>\<open>ChapterManager.format_timestamp\<close>; \<open>div\<close> and \<open>mod\<close> round down as \<^verbatim>\<open>//\<close> and \<^verbatim>\<open>%\<close> do.\<close>

definition format_timestamp :: "int \<Rightarrow> string" where
  "format_timestamp milliseconds =
     (let ms = milliseconds mod 1000;
          total_seconds = milliseconds div 1000;
          hours = total_seconds div 3600;
          minutes = (total_seconds mod 3600) div 60;
          seconds = total_seconds mod 60
      in py_fmt0 2 hours @ '':'' @ py_fmt0 2 minutes @ '':'' @ py_fmt0 2 seconds @ ''.'' @
         py_fmt0 3 ms)"

subsection \<open>Builders\<close>

text \<open>The first loop of \<^verbatim>\<open>create_from_timestamps\<close>: it stops at the first text that fails.\<close>

fun parse_all :: "(string \<times> string) list \<Rightarrow> error + (int \<times> string) list" where
  "parse_all [] = Inr []"
| "parse_all ((time_str, t) # rest) =
     bind_err (parse_timestamp time_str) (\<lambda>start.
     bind_err (parse_all rest) (\<lambda>ps. Inr ((start, t) # ps)))"

text \<open>
  \<^verbatim>\<open>ChapterManager.create_from_timestamps\<close>. The chapter list is cleared before anything is
  parsed, so a raise leaves the model empty; the result is the model and the error raised,
  if any. \<^verbatim>\<open>list.sort\<close> is stable, as \<^const>\<open>sort_key\<close> is.
\<close>

definition create_from_timestamps ::
  "ChapterManager \<Rightarrow> (string \<times> string) list \<Rightarrow> ChapterManager \<times> error option"
where
  "create_from_timestamps m timestamps =
     (let m0 = m\<lparr>chapters := []\<rparr>
      in case parse_all timestamps of
           Inl e \<Rightarrow> (m0, Some e)
         | Inr parsed \<Rightarrow>
             (let parsed_chapters = sort_key fst parsed;
                  n = length parsed_chapters
              in (foldl (\<lambda>acc i.
                           let (start, t) = parsed_chapters ! i;
                               dur = (if int i < int n - 1
                                      then Some (fst (parsed_chapters ! (i + 1)) - start)
                                      else None)
                           in fst (add_chapter acc t start dur None))
                    m0 [0..<n],
                  None)))"

text \<open>
  \<^verbatim>\<open>ChapterManager.auto_name_chapters\<close>: the formatted pattern is assigned to the title
  field directly, chapter after chapter. The result is the model after the call and how
  the call ended: when formatting raises, the chapters before that one are renamed
  already.
\<close>

fun auto_name_loop :: "string \<Rightarrow> int \<Rightarrow> Chapter list \<Rightarrow> Chapter list \<times> unit outcome" where
  "auto_name_loop pattern i [] = ([], Returns ())"
| "auto_name_loop pattern i (ch # rest) =
     (case py_format_num pattern i of
        Returns t \<Rightarrow>
          (let (renamed, ending) = auto_name_loop pattern (i + 1) rest
           in (ch\<lparr>title := t\<rparr> # renamed, ending))
      | Raises \<Rightarrow> (ch # rest, Raises)
      | Unmodelled \<Rightarrow> (ch # rest, Unmodelled))"

definition auto_name_chapters :: "ChapterManager \<Rightarrow> string \<Rightarrow> ChapterManager \<times> unit outcome" where
  "auto_name_chapters m pattern =
     (let (renamed, ending) = auto_name_loop pattern 1 (chapters m)
      in (m\<lparr>chapters := renamed\<rparr>, ending))"

subsection \<open>Renders\<close>

text \<open>\<^verbatim>\<open>ChapterManager.to_ffmpeg_metadata\<close>.\<close>

definition to_ffmpeg_metadata :: "ChapterManager \<Rightarrow> string" where
  "to_ffmpeg_metadata m =
     (if chapters m = [] then []
      else foldl (\<lambda>metadata ch. metadata @ to_ffmpeg_format ch) '';FFMETADATA1\<newline>'' (chapters m))"

text \<open>\<^verbatim>\<open>M4BCreator._format_chapter_mdta\<close>.\<close>

definition format_chapter_mdta :: "int \<Rightarrow> Chapter \<Rightarrow> string" where
  "format_chapter_mdta chapter_num ch =
     (let total_ms = start_ms ch;
          milliseconds = total_ms mod 1000;
          total_seconds = total_ms div 1000;
          hours = total_seconds div 3600;
          minutes = (total_seconds mod 3600) div 60;
          seconds = total_seconds mod 60
      in ''Menu '' @ str_int chapter_num @ ''# _'' @ py_fmt0 2 hours @ ''_'' @
         py_fmt0 2 minutes @ ''_'' @ py_fmt0 2 seconds @ ''_'' @ py_fmt0 3 milliseconds @
         '': '' @ title ch)"

subsection \<open>Validation\<close>

text \<open>The three loops of \<^verbatim>\<open>validate\<close>, each over \<^verbatim>\<open>enumerate(self.chapters, start=1)\<close> or
  over the indices of the sorted copy.\<close>

definition empty_title_warnings :: "Chapter list \<Rightarrow> string list" where
  "empty_title_warnings cs =
     concat (map (\<lambda>(i, ch). if py_strip (title ch) = []
                             then [''Chapter '' @ str_nat i @ '' has empty title''] else [])
               (List.enumerate 1 cs))"

definition time_warnings :: "Chapter list \<Rightarrow> string list" where
  "time_warnings cs =
     concat (map (\<lambda>(i, ch).
                    (if start_ms ch < 0
                     then [''Chapter '' @ str_nat i @ '' has negative start time''] else []) @
                    (case duration_ms ch of
                       Some d \<Rightarrow> if d < 0 then [''Chapter '' @ str_nat i @ '' has negative duration'']
                                 else []
                     | None \<Rightarrow> []))
               (List.enumerate 1 cs))"

definition overlap_message :: "Chapter \<Rightarrow> Chapter \<Rightarrow> string" where
  "overlap_message current next_chapter =
     ''Chapters '' @ [CHR 0x27] @ title current @ [CHR 0x27] @ '' and '' @ [CHR 0x27] @
     title next_chapter @ [CHR 0x27] @ '' overlap''"

text \<open>The duration is tested for truth: \<open>None\<close> and \<open>0\<close> both skip the comparison.\<close>

definition overlap_warnings :: "Chapter list \<Rightarrow> string list" where
  "overlap_warnings cs =
     (let sorted_chapters = sort_key start_ms cs
      in concat (map (\<lambda>i.
                        let current = sorted_chapters ! i;
                            next_chapter = sorted_chapters ! (i + 1)
                        in (case duration_ms current of
                              Some d \<Rightarrow>
                                if d \<noteq> 0 \<and> start_ms current + d > start_ms next_chapter
                                then [overlap_message current next_chapter] else []
                            | None \<Rightarrow> []))
                   [0..<length sorted_chapters - 1]))"

text \<open>
  \<^verbatim>\<open>ChapterManager.validate\<close>: the model after the call and the warnings returned. The
  source assigns to no attribute of the model, and \<^verbatim>\<open>sorted\<close> builds a new list.
\<close>

definition validate :: "ChapterManager \<Rightarrow> ChapterManager \<times> string list" where
  "validate m =
     (m, if chapters m = [] then [''No chapters defined'']
         else empty_title_warnings (chapters m) @ time_warnings (chapters m) @
              overlap_warnings (chapters m))"


subsection \<open>Validation on a store\<close>

text \<open>
  The same method with the identity of objects made explicit. A list is an object at an
  address and holds the addresses of chapter objects; \<^verbatim>\<open>self.chapters\<close> is the address of
  the list of the live model. Addresses of list objects are handed out in order, and
  \<open>next_addr\<close> is the first one not yet in use. Every field holds a value of its declared
  type.
\<close>

type_synonym addr = nat

record store =
  list_at :: "addr \<Rightarrow> addr list"
  chapter_at :: "addr \<Rightarrow> Chapter"
  next_addr :: addr

text \<open>
  \<^verbatim>\<open>xs[i]\<close>: an index from \<open>-len(xs)\<close> up to \<open>len(xs) - 1\<close> reads the list, a negative one
  from its end; any other index raises.
\<close>

definition py_index :: "'a list \<Rightarrow> int \<Rightarrow> error + 'a" where
  "py_index xs i =
     (let n = int (length xs)
      in if 0 \<le> i \<and> i < n then Inr (xs ! nat i)
         else if - n \<le> i \<and> i < 0 then Inr (xs ! nat (i + n))
         else Inl IndexError)"

text \<open>
  \<^verbatim>\<open>sorted(xs, key=...)\<close> on a list of chapters: a new list object with the same chapter
  objects in stable order of the key; the list \<open>xs\<close> itself is not written.
\<close>

definition py_sorted :: "store \<Rightarrow> addr \<Rightarrow> (Chapter \<Rightarrow> int) \<Rightarrow> store \<times> addr" where
  "py_sorted h xs key =
     (let a = next_addr h
      in (h\<lparr>list_at := (list_at h)(a := sort_key (\<lambda>c. key (chapter_at h c)) (list_at h xs)),
            next_addr := Suc a\<rparr>, a))"

text \<open>
  \<^verbatim>\<open>xs.sort(key=...)\<close>, by contrast, writes the list object \<open>xs\<close>: it is what
  \<^verbatim>\<open>ChapterManager.sort_by_start_time\<close> calls on \<^verbatim>\<open>self.chapters\<close>.
\<close>

definition py_list_sort :: "store \<Rightarrow> addr \<Rightarrow> (Chapter \<Rightarrow> int) \<Rightarrow> store" where
  "py_list_sort h xs key =
     h\<lparr>list_at := (list_at h)(xs := sort_key (\<lambda>c. key (chapter_at h c)) (list_at h xs))\<rparr>"

definition sort_by_start_time_store :: "store \<Rightarrow> addr \<Rightarrow> store" where
  "sort_by_start_time_store h self_chapters = py_list_sort h self_chapters start_ms"

text \<open>\<^verbatim>\<open>range(n)\<close> for an integer \<open>n\<close>: empty when \<open>n\<close> is not positive.\<close>

definition py_range :: "int \<Rightarrow> int list" where
  "py_range n = map int [0..<nat n]"

text \<open>
  The third loop of \<^verbatim>\<open>validate\<close>, over the indices \<^verbatim>\<open>range(len(sorted_chapters) - 1)\<close>:
  both reads of the sorted list can raise, and a warning is appended to the warnings so
  far.
\<close>

fun overlap_loop :: "store \<Rightarrow> addr \<Rightarrow> int list \<Rightarrow> string list \<Rightarrow> error + string list" where
  "overlap_loop h sorted_chapters [] warnings = Inr warnings"
| "overlap_loop h sorted_chapters (i # indices) warnings =
     bind_err (py_index (list_at h sorted_chapters) i) (\<lambda>current.
     bind_err (py_index (list_at h sorted_chapters) (i + 1)) (\<lambda>next_chapter.
       overlap_loop h sorted_chapters indices
         (case duration_ms (chapter_at h current) of
            Some d \<Rightarrow>
              if d \<noteq> 0 \<and> start_ms (chapter_at h current) + d > start_ms (chapter_at h next_chapter)
              then warnings @ [overlap_message (chapter_at h current) (chapter_at h next_chapter)]
              else warnings
          | None \<Rightarrow> warnings)))"

text \<open>
  \<^verbatim>\<open>ChapterManager.validate\<close> on a store: the store after the call, and the warnings
  returned or the error raised.
\<close>

definition validate_store :: "store \<Rightarrow> addr \<Rightarrow> store \<times> (error + string list)" where
  "validate_store h self_chapters =
     (let cs = map (chapter_at h) (list_at h self_chapters)
      in if cs = [] then (h, Inr [''No chapters defined''])
         else (let warnings = empty_title_warnings cs @ time_warnings cs;
                   (h1, sorted_chapters) = py_sorted h self_chapters start_ms
               in (h1, overlap_loop h1 sorted_chapters
                         (py_range (int (length (list_at h1 sorted_chapters)) - 1))
                         warnings)))"
section \<open>Forms named by the specification\<close>

text \<open>
  The definitions of this section are not translated from the source: each writes down a
  form that the specification describes in words, and a theorem below compares the
  function of the source with it.
\<close>

text \<open>The fixed-width text \<open>HH:MM:SS.mmm\<close>: two, two, two and three decimal digits.\<close>

definition canonical_timestamp :: "int \<Rightarrow> string" where
  "canonical_timestamp ms =
     (let H = nat (ms div 3600000);
          M = nat (ms div 60000 mod 60);
          S = nat (ms div 1000 mod 60);
          F = nat (ms mod 1000)
      in [digit_char (H div 10), digit_char (H mod 10), CHR '':'',
          digit_char (M div 10), digit_char (M mod 10), CHR '':'',
          digit_char (S div 10), digit_char (S mod 10), CHR ''.'',
          digit_char (F div 100), digit_char (F div 10 mod 10), digit_char (F mod 10)])"

text \<open>The decimal text of a number, with zeros on its left up to a width.\<close>

definition zero_padded :: "nat \<Rightarrow> int \<Rightarrow> string" where
  "zero_padded w n = replicate (w - length (str_int n)) (CHR ''0'') @ str_int n"

text \<open>
  One chapter block of the primary metadata document: the marker line, the millisecond
  timebase, the start offset, the end offset (start plus duration when a duration is
  present, the start again otherwise) and the title, one per line.
\<close>

definition chapter_block :: "Chapter \<Rightarrow> string" where
  "chapter_block ch =
     ''[CHAPTER]'' @ [CHR 0x0A] @
     ''TIMEBASE=1/1000'' @ [CHR 0x0A] @
     ''START='' @ str_int (start_ms ch) @ [CHR 0x0A] @
     ''END='' @ str_int (case duration_ms ch of Some d \<Rightarrow> start_ms ch + d | None \<Rightarrow> start_ms ch) @
       [CHR 0x0A] @
     ''title='' @ title ch @ [CHR 0x0A]"

text \<open>The adjacent pairs of a list, in order: each element with its successor.\<close>

definition adjacent_pairs :: "'a list \<Rightarrow> ('a \<times> 'a) list" where
  "adjacent_pairs xs = zip xs (tl xs)"

text \<open>The earlier chapter has a known duration and ends after the later one starts.\<close>

definition overlaps :: "Chapter \<Rightarrow> Chapter \<Rightarrow> bool" where
  "overlaps earlier later =
     (case duration_ms earlier of
        Some d \<Rightarrow> start_ms earlier + d > start_ms later
      | None \<Rightarrow> False)"

text \<open>The overlap warnings are the warnings that begin with the word \<open>Chapters\<close>.\<close>

definition is_overlap_warning :: "string \<Rightarrow> bool" where
  "is_overlap_warning w = (take 9 w = ''Chapters '')"

text \<open>
  The light cleanup: runs of underscores become one space, runs of white space become
  one space, and the text is trimmed.
\<close>

definition light_cleanup :: "string \<Rightarrow> string" where
  "light_cleanup t = py_strip (collapse_runs py_isspace (collapse_runs (\<lambda>c. c = CHR ''_'') t))"












section \<open>Auxiliary definitions\<close>

text \<open>
  The chapter that the second loop of \<^verbatim>\<open>create_from_timestamps\<close> adds for index \<open>i\<close>
  of the sorted list.
\<close>

definition timed_chapter :: "(int \<times> string) list \<Rightarrow> nat \<Rightarrow> Chapter" where
  "timed_chapter ps i =
     Chapter_init (snd (ps ! i)) (fst (ps ! i))
       (if Suc i < length ps then Some (fst (ps ! Suc i) - fst (ps ! i)) else None) None"


section \<open>Decimal digits\<close>

lemma digit_cases:
  "d < 10 \<Longrightarrow> d = 0 \<or> d = 1 \<or> d = 2 \<or> d = 3 \<or> d = 4 \<or> d = 5 \<or> d = 6 \<or> d = 7 \<or> d = 8 \<or> d = (9::nat)"
  by arith

lemma is_digit_digit_char: "d < 10 \<Longrightarrow> is_digit (digit_char d)"
  using digit_cases [of d] by (auto simp: digit_char_def is_digit_def)

lemma digit_val_digit_char: "d < 10 \<Longrightarrow> digit_val (digit_char d) = d"
  using digit_cases [of d] by (auto simp: digit_char_def digit_val_def)

lemma str_nat_digits: "list_all is_digit (str_nat n)"
proof (induction n rule: str_nat.induct)
  case (1 n)
  show ?case
  proof (cases "n < 10")
    case True
    then show ?thesis by (simp add: str_nat.simps [of n] is_digit_digit_char)
  next
    case False
    with 1 show ?thesis by (simp add: str_nat.simps [of n] is_digit_digit_char)
  qed
qed

lemma str_nat_nonempty: "str_nat n \<noteq> []"
  by (simp add: str_nat.simps [of n])

lemma nat_of_digits_snoc: "nat_of_digits (ds @ [c]) = 10 * nat_of_digits ds + digit_val c"
  by (simp add: nat_of_digits_def)

lemma nat_of_digits_str_nat: "nat_of_digits (str_nat n) = n"
proof (induction n rule: str_nat.induct)
  case (1 n)
  show ?case
  proof (cases "n < 10")
    case True
    then show ?thesis
      by (simp add: str_nat.simps [of n] nat_of_digits_def digit_val_digit_char)
  next
    case False
    with 1 have "nat_of_digits (str_nat (n div 10)) = n div 10" by simp
    with False show ?thesis
      by (simp add: str_nat.simps [of n] nat_of_digits_snoc digit_val_digit_char)
  qed
qed

lemma length_str_nat_le: "0 < k \<Longrightarrow> (length (str_nat n) \<le> k) = (n < 10 ^ k)"
proof (induction k arbitrary: n)
  case 0
  then show ?case by simp
next
  case (Suc k)
  show ?case
  proof (cases "n < 10")
    case True
    have "(10::nat) \<le> 10 ^ Suc k" by simp
    with True have "n < 10 ^ Suc k" by linarith
    with True show ?thesis by (simp add: str_nat.simps [of n])
  next
    case False
    show ?thesis
    proof (cases "k = 0")
      case True
      with False show ?thesis
        by (simp add: str_nat.simps [of n] str_nat_nonempty)
    next
      case k: False
      then have "(length (str_nat (n div 10)) \<le> k) = (n div 10 < 10 ^ k)"
        using Suc.IH [of "n div 10"] by simp
      moreover have "(n div 10 < 10 ^ k) = (n < 10 ^ Suc k)"
        by (simp add: less_mult_imp_div_less div_less_iff_less_mult mult.commute)
      ultimately show ?thesis using False by (simp add: str_nat.simps [of n])
    qed
  qed
qed

lemma nat_of_digits_zeros: "nat_of_digits (replicate k (CHR ''0'') @ ds) = nat_of_digits ds"
proof -
  have "foldl (\<lambda>a c. 10 * a + digit_val c) 0 (replicate k (CHR ''0'')) = 0"
    by (induction k) (simp_all add: digit_val_def)
  then show ?thesis by (simp add: nat_of_digits_def)
qed

lemma is_digit_not_special:
  "is_digit c \<Longrightarrow> c \<noteq> CHR ''_'' \<and> c \<noteq> CHR ''-'' \<and> c \<noteq> CHR ''+'' \<and> c \<noteq> CHR ''.''
     \<and> c \<noteq> CHR '':'' \<and> \<not> py_int_space c \<and> \<not> py_isspace c"
  by (auto simp: is_digit_def py_int_space_def py_isspace_def Let_def)

lemma digits_ok_all: "ds \<noteq> [] \<Longrightarrow> list_all is_digit ds \<Longrightarrow> digits_ok ds"
  by (induction ds rule: digits_ok.induct) (auto dest: is_digit_not_special)

lemma filter_underscore_digits:
  "list_all is_digit ds \<Longrightarrow> filter (\<lambda>x. x \<noteq> CHR ''_'') ds = ds"
  by (induction ds) (auto dest: is_digit_not_special)

lemma py_int_digits:
  assumes "ds \<noteq> []" "list_all is_digit ds"
  shows "py_int ds = Some (int (nat_of_digits ds))"
proof -
  from assms obtain c r where ds: "ds = c # r" by (cases ds) auto
  with assms have c: "is_digit c" by simp
  then have d1: "dropWhile py_int_space ds = ds"
    using ds by (simp add: is_digit_not_special)
  from assms have "is_digit (last ds)" by (simp add: list_all_iff)
  then have "\<not> py_int_space (hd (rev ds))" using assms(1)
    by (simp add: hd_rev is_digit_not_special)
  then have d2: "dropWhile py_int_space (rev ds) = rev ds"
    using assms(1) by (cases "rev ds") auto
  have t: "rev (dropWhile py_int_space (rev (dropWhile py_int_space ds))) = c # r"
    unfolding d1 d2 by (simp add: ds)
  from c have nc: "c \<noteq> CHR ''-''" "c \<noteq> CHR ''+''" by (simp_all add: is_digit_not_special)
  have ok: "digits_ok (c # r)" using digits_ok_all [OF assms] ds by simp
  have fl: "filter (\<lambda>x. x \<noteq> CHR ''_'') (c # r) = c # r"
    using filter_underscore_digits [OF assms(2)] ds by simp
  show ?thesis
    unfolding py_int_def t using nc ok fl by (simp add: ds del: digits_ok.simps filter.simps)
qed

section \<open>Zero padding, splitting and the round trip of the fields\<close>

lemma py_fmt0_nonneg:
  "0 \<le> i \<Longrightarrow> py_fmt0 w i = replicate (w - length (str_nat (nat i))) (CHR ''0'') @ str_nat (nat i)"
  by (simp add: py_fmt0_def Let_def)

lemma is_digit_zero: "is_digit (CHR ''0'')"
  by (simp add: is_digit_def)

lemma py_fmt0_digits: "0 \<le> i \<Longrightarrow> list_all is_digit (py_fmt0 w i)"
  using str_nat_digits [of "nat i"]
  by (auto simp: py_fmt0_nonneg is_digit_zero list_all_iff)

lemma py_fmt0_nonempty: "py_fmt0 w i \<noteq> []"
  by (simp add: py_fmt0_def Let_def str_nat_nonempty)

lemma nat_of_digits_py_fmt0: "0 \<le> i \<Longrightarrow> int (nat_of_digits (py_fmt0 w i)) = i"
  by (simp add: py_fmt0_nonneg nat_of_digits_zeros nat_of_digits_str_nat)

lemma py_int_py_fmt0: "0 \<le> i \<Longrightarrow> py_int (py_fmt0 w i) = Some i"
  using py_int_digits [OF py_fmt0_nonempty py_fmt0_digits, of i w]
  by (simp add: nat_of_digits_py_fmt0)

lemma length_py_fmt0:
  "0 \<le> i \<Longrightarrow> length (py_fmt0 w i) = max w (length (str_nat (nat i)))"
  by (simp add: py_fmt0_nonneg)

lemma length_py_fmt0_exact:
  assumes "0 \<le> i" "0 < w" "i < 10 ^ w"
  shows "length (py_fmt0 w i) = w"
proof -
  from assms have "nat i < 10 ^ w" by (simp add: nat_less_iff)
  then have "length (str_nat (nat i)) \<le> w" using length_str_nat_le [OF assms(2)] by simp
  then show ?thesis using assms(1) by (simp add: length_py_fmt0)
qed

lemma py_fmt0_two:
  assumes "0 \<le> i" "i < 100"
  shows "py_fmt0 2 i = [digit_char (nat i div 10), digit_char (nat i mod 10)]"
proof (cases "nat i < 10")
  case True
  then show ?thesis using assms
    by (simp add: py_fmt0_nonneg str_nat.simps [of "nat i"] digit_char_def numeral_2_eq_2)
next
  case False
  moreover from assms have "nat i div 10 < 10" by simp
  ultimately show ?thesis using assms
    by (simp add: py_fmt0_nonneg str_nat.simps [of "nat i"] str_nat.simps [of "nat i div 10"])
qed

lemma py_fmt0_three:
  assumes "0 \<le> i" "i < 1000"
  shows "py_fmt0 3 i =
           [digit_char (nat i div 100), digit_char (nat i div 10 mod 10), digit_char (nat i mod 10)]"
proof -
  let ?n = "nat i"
  from assms have n: "?n < 1000" by simp
  consider "?n < 10" | "10 \<le> ?n" "?n < 100" | "100 \<le> ?n" by linarith
  then show ?thesis
  proof cases
    case 1
    then show ?thesis using assms
      by (simp add: py_fmt0_nonneg str_nat.simps [of ?n] digit_char_def numeral_3_eq_3)
  next
    case 2
    then have "?n div 10 < 10" "?n div 100 = 0" by simp_all
    with 2 show ?thesis using assms
      by (simp add: py_fmt0_nonneg str_nat.simps [of ?n] str_nat.simps [of "?n div 10"]
          digit_char_def)
  next
    case 3
    with n have a: "\<not> ?n < 10" "\<not> ?n div 10 < 10" "?n div 100 < 10" by simp_all
    have b: "?n div 10 div 10 = ?n div 100" by (simp add: div_mult2_eq)
    from a show ?thesis using assms
      by (simp add: py_fmt0_nonneg str_nat.simps [of ?n] str_nat.simps [of "?n div 10"]
          str_nat.simps [of "?n div 100"] b)
  qed
qed

lemma py_split_nosep: "sep \<notin> set a \<Longrightarrow> py_split sep a = [a]"
  by (induction a) auto

lemma py_split_append:
  "sep \<notin> set a \<Longrightarrow> py_split sep (a @ sep # b) = a # py_split sep b"
  by (induction a) auto

lemma digits_no_sep:
  "list_all is_digit ds \<Longrightarrow> CHR '':'' \<notin> set ds \<and> CHR ''.'' \<notin> set ds"
  by (auto simp: list_all_iff dest: is_digit_not_special)

lemma parse_format_fields:
  assumes h: "list_all is_digit hs" "hs \<noteq> []"
      and m: "list_all is_digit ms" "ms \<noteq> []"
      and s: "list_all is_digit ss" "ss \<noteq> []"
      and f: "list_all is_digit fs" "length fs = 3"
  shows "parse_timestamp (hs @ '':'' @ ms @ '':'' @ ss @ ''.'' @ fs) =
           Inr ((int (nat_of_digits hs) * 3600 + int (nat_of_digits ms) * 60 +
                 int (nat_of_digits ss)) * 1000 + int (nat_of_digits fs))"
proof -
  let ?X = "hs @ '':'' @ ms @ '':'' @ ss"
  let ?T = "hs @ '':'' @ ms @ '':'' @ ss @ ''.'' @ fs"
  have T: "?T = ?X @ CHR ''.'' # fs" by simp
  have nodot: "CHR ''.'' \<notin> set ?X" using h m s by (simp add: digits_no_sep)
  have "py_split (CHR ''.'') ?T = ?X # py_split (CHR ''.'') fs"
    unfolding T using nodot by (rule py_split_append)
  then have sp: "py_split (CHR ''.'') ?T = [?X, fs]"
    using f by (simp add: py_split_nosep digits_no_sep)
  have fne: "fs \<noteq> []" using f by auto
  have lj: "take 3 (py_ljust 3 (CHR ''0'') fs) = fs" using f by (simp add: py_ljust_def)
  have frac: "split_fraction ?T = Inr (?X, int (nat_of_digits fs))"
    unfolding split_fraction_def sp
    by (simp add: lj int_lit_def bind_err_def py_int_digits [OF fne f(1)])
  have "py_split (CHR '':'') ?X = hs # py_split (CHR '':'') (ms @ CHR '':'' # ss)"
    using py_split_append [of "CHR '':''" hs "ms @ '':'' @ ss"] h by (simp add: digits_no_sep)
  also have "py_split (CHR '':'') (ms @ CHR '':'' # ss) = ms # py_split (CHR '':'') ss"
    using m by (simp add: py_split_append digits_no_sep)
  also have "py_split (CHR '':'') ss = [ss]" using s by (simp add: py_split_nosep digits_no_sep)
  finally have parts: "py_split (CHR '':'') ?X = [hs, ms, ss]" .
  have pp: "\<And>T. parse_parts T [hs, ms, ss] =
              Inr (int (nat_of_digits hs), int (nat_of_digits ms), int (nat_of_digits ss))"
    by (simp add: int_lit_def bind_err_def py_int_digits h m s)
  show ?thesis
    unfolding parse_timestamp_def frac
    by (simp add: bind_err_def parts [simplified] pp del: parse_parts.simps)
qed

lemma hms_recompose:
  fixes t :: int
  shows "t div 3600 * 3600 + t mod 3600 div 60 * 60 + t mod 60 = t"
proof -
  have "t mod 60 = t mod 3600 mod 60" by (simp add: mod_mod_cancel)
  then have "t mod 3600 div 60 * 60 + t mod 60 = t mod 3600" by simp
  then have "t div 3600 * 3600 + (t mod 3600 div 60 * 60 + t mod 60) = t" by simp
  then show ?thesis by (simp only: add.assoc)
qed

lemma parse_format_roundtrip:
  assumes "0 \<le> ms"
  shows "parse_timestamp (format_timestamp ms) = Inr ms"
proof -
  let ?t = "ms div 1000"
  have t: "0 \<le> ?t" using assms by simp
  have H: "0 \<le> ?t div 3600" using t by simp
  have M: "0 \<le> ?t mod 3600 div 60" by simp
  have S: "0 \<le> ?t mod 60" by simp
  have F: "0 \<le> ms mod 1000" "ms mod 1000 < 10 ^ 3" by simp_all
  have "parse_timestamp (format_timestamp ms) =
          Inr ((?t div 3600 * 3600 + ?t mod 3600 div 60 * 60 + ?t mod 60) * 1000 + ms mod 1000)"
    unfolding format_timestamp_def Let_def
    using parse_format_fields [OF py_fmt0_digits [OF H] py_fmt0_nonempty
        py_fmt0_digits [OF M] py_fmt0_nonempty py_fmt0_digits [OF S] py_fmt0_nonempty
        py_fmt0_digits [OF F(1)] length_py_fmt0_exact [OF F(1) _ F(2)], of 2 2 2]
    by (simp add: nat_of_digits_py_fmt0 H M S F)
  then show ?thesis by (simp add: hms_recompose)
qed

section \<open>Evaluation of the conversions on numerals\<close>

lemma str_nat_small: "str_nat 0 = ''0''" "str_nat (Suc 0) = ''1''"
  by (simp_all add: str_nat.simps [of 0] str_nat.simps [of "Suc 0"] digit_char_def)

lemma str_nat_numeral:
  "str_nat (numeral k) =
     (if (numeral k :: nat) < 10 then [digit_char (numeral k)]
      else str_nat (numeral k div 10) @ [digit_char (numeral k mod 10)])"
  by (rule str_nat.simps)

lemma replicate_numeral: "replicate (numeral k) x = x # replicate (pred_numeral k) x"
  by (simp add: numeral_eq_Suc)

lemmas str_eval = str_nat_small str_nat_numeral digit_char_def str_int_def replicate_numeral

section \<open>Evaluation of title cleaning\<close>

lemmas clean_eval = clean_title_def Let_def has_extension_def ends_with_ext_def is_audio_ext_def
  lower_ascii_def strip_extension_def label_rest_def is_digit_def is_label_sep_def py_isspace_def
  py_strip_def

lemma clean_title_examples:
  "clean_title ''A'' = ''A''"
  "clean_title ''B'' = ''B''"
  "clean_title ''01 - Intro.mp3'' = ''Intro''"
  "clean_title ''Track 02_Chapter Two.m4b'' = ''Chapter Two''"
  "clean_title ''The Seducer's Victim'' = ''The Seducer's Victim''"
  "clean_title ''_'' = ''_''"
  "clean_title ''a.mp3\<newline>'' = ''a''"
  "clean_title ''Chapter_1'' = ''Chapter 1''"
  "clean_title ''01 - .mp3'' = ''01 - .mp3''"
  by (simp_all add: clean_eval)

section \<open>Evaluation of timestamp parsing\<close>

lemmas parse_eval = parse_timestamp_def split_fraction_def bind_err_def int_lit_def py_int_def
  py_int_space_def is_digit_def nat_of_digits_def digit_val_def py_ljust_def Let_def
  replicate_numeral

lemma parse_timestamp_examples:
  "parse_timestamp ''00:05:00'' = Inr 300000"
  "parse_timestamp ''00:00:00'' = Inr 0"
  by (simp_all add: parse_eval)

section \<open>Timestamp codec: the round trip\<close>

lemma hms_fields:
  fixes ms :: int
  shows "ms div 1000 div 3600 = ms div 3600000"
    and "ms div 1000 mod 3600 div 60 = ms div 60000 mod 60"
proof -
  show "ms div 1000 div 3600 = ms div 3600000"
    using zdiv_zmult2_eq [of 3600 ms 1000] by simp
  have "ms div 1000 mod (60 * 60) = 60 * (ms div 1000 div 60 mod 60) + ms div 1000 mod 60"
    by (rule zmod_zmult2_eq) simp
  then have "ms div 1000 mod 3600 div 60 = ms div 1000 div 60 mod 60" by simp
  also have "ms div 1000 div 60 = ms div 60000"
    using zdiv_zmult2_eq [of 60 ms 1000] by simp
  finally show "ms div 1000 mod 3600 div 60 = ms div 60000 mod 60" .
qed

lemma format_timestamp_canonical:
  assumes "0 \<le> ms" "ms < 360000000"
  shows "format_timestamp ms = canonical_timestamp ms"
proof -
  have H: "0 \<le> ms div 3600000" "ms div 3600000 < 100" using assms by simp_all
  have M: "0 \<le> ms div 60000 mod 60" "ms div 60000 mod 60 < 100"
    using pos_mod_bound [of 60 "ms div 60000"] by simp_all
  have S: "0 \<le> ms div 1000 mod 60" "ms div 1000 mod 60 < 100"
    using pos_mod_bound [of 60 "ms div 1000"] by simp_all
  have F: "0 \<le> ms mod 1000" "ms mod 1000 < 1000" by simp_all
  show ?thesis
    unfolding format_timestamp_def canonical_timestamp_def Let_def hms_fields
    by (simp only: py_fmt0_two [OF H] py_fmt0_two [OF M] py_fmt0_two [OF S] py_fmt0_three [OF F]
        append.simps)
qed

lemma length_format_timestamp:
  assumes "0 \<le> ms"
  shows "length (format_timestamp ms) = 10 + max 2 (length (str_nat (nat (ms div 3600000))))"
proof -
  have M: "0 \<le> ms div 60000 mod 60" "ms div 60000 mod 60 < 10 ^ 2"
    using pos_mod_bound [of 60 "ms div 60000"] by simp_all
  have S: "0 \<le> ms div 1000 mod 60" "ms div 1000 mod 60 < 10 ^ 2"
    using pos_mod_bound [of 60 "ms div 1000"] by simp_all
  have F: "0 \<le> ms mod 1000" "ms mod 1000 < 10 ^ 3" by simp_all
  have H: "0 \<le> ms div 3600000" using assms by simp
  show ?thesis
    unfolding format_timestamp_def Let_def hms_fields
    by (simp add: length_py_fmt0_exact [OF M(1) _ M(2)] length_py_fmt0_exact [OF S(1) _ S(2)]
        length_py_fmt0_exact [OF F(1) _ F(2)] length_py_fmt0 [OF H])
qed

text \<open>
  Claim C1 (amended). For every \<open>ms \<ge> 0\<close>, parsing the formatted timestamp returns \<open>ms\<close>.
  The text is the fixed-width form \<open>HH:MM:SS.mmm\<close> of twelve characters exactly when
  \<open>ms < 360000000\<close>; from one hundred hours on the hour field has more than two digits.
\<close>

theorem parse_format_timestamp:
  assumes "0 \<le> ms"
  shows "parse_timestamp (format_timestamp ms) = Inr ms
       \<and> (length (format_timestamp ms) = 12) = (ms < 360000000)
       \<and> (ms < 360000000 \<longrightarrow> format_timestamp ms = canonical_timestamp ms)"
proof -
  have "(length (str_nat (nat (ms div 3600000))) \<le> 2) = (nat (ms div 3600000) < 10 ^ 2)"
    by (rule length_str_nat_le) simp
  also have "\<dots> = (nat ms div 3600000 < 100)" using assms by (simp add: nat_div_distrib)
  also have "\<dots> = (nat ms < 100 * 3600000)" by (rule div_less_iff_less_mult) simp
  also have "\<dots> = (ms < 360000000)" using assms by (simp add: nat_less_iff)
  finally have e: "(length (str_nat (nat (ms div 3600000))) \<le> 2) = (ms < 360000000)" .
  have "(length (format_timestamp ms) = 12) = (length (str_nat (nat (ms div 3600000))) \<le> 2)"
    unfolding length_format_timestamp [OF assms] by (auto simp: max_def)
  with e have "(length (format_timestamp ms) = 12) = (ms < 360000000)" by simp
  then show ?thesis
    using parse_format_roundtrip [OF assms] format_timestamp_canonical [OF assms] by simp
qed

theorem parse_format_timestamp_witness:
  "(0::int) \<le> 33970954
   \<and> parse_timestamp (format_timestamp 33970954) = Inr 33970954
   \<and> length (format_timestamp 33970954) = 12
   \<and> format_timestamp 33970954 = canonical_timestamp 33970954"
proof -
  have h: "(0::int) \<le> 33970954" and l: "(33970954::int) < 360000000" by simp_all
  from parse_format_timestamp [OF h] l h show ?thesis by blast
qed

theorem format_timestamp_width_counterexample:
  "format_timestamp 360000000 = ''100:00:00.000'' \<and> length (format_timestamp 360000000) = 13"
  by (simp add: format_timestamp_def py_fmt0_def str_eval)

section \<open>The MDTA tag\<close>

lemma py_fmt0_zero_padded_nonneg: "0 \<le> n \<Longrightarrow> py_fmt0 w n = zero_padded w n"
  by (simp add: py_fmt0_nonneg zero_padded_def str_int_def)

lemma py_fmt0_zero_padded_two: "py_fmt0 2 n = zero_padded 2 n"
proof (cases "0 \<le> n")
  case True
  then show ?thesis by (rule py_fmt0_zero_padded_nonneg)
next
  case False
  then have n: "n < 0" by simp
  have "1 \<le> length (str_nat (nat (- n)))"
    using str_nat_nonempty [of "nat (- n)"] by (cases "str_nat (nat (- n))") simp_all
  with n show ?thesis
    by (simp add: py_fmt0_def zero_padded_def str_int_def Let_def)
qed

lemma length_zero_padded:
  assumes "0 \<le> n" "0 < w" "n < 10 ^ w"
  shows "length (zero_padded w n) = w"
  using length_py_fmt0_exact [OF assms] py_fmt0_zero_padded_nonneg [OF assms(1), of w] by simp

lemma divmod_base:
  fixes q r b :: int
  assumes "0 \<le> r" "r < b"
  shows "(q * b + r) div b = q" and "(q * b + r) mod b = r"
  using assms by simp_all

lemma hmsf_unique:
  fixes H M S F :: int
  assumes st: "start = ((H * 60 + M) * 60 + S) * 1000 + F"
      and M: "0 \<le> M" "M < 60" and S: "0 \<le> S" "S < 60" and F: "0 \<le> F" "F < 1000"
  shows "start mod 1000 = F"
    and "start div 1000 div 3600 = H"
    and "start div 1000 mod 3600 div 60 = M"
    and "start div 1000 mod 60 = S"
proof -
  define t where "t = (H * 60 + M) * 60 + S"
  define r where "r = M * 60 + S"
  have st': "start = t * 1000 + F" unfolding t_def by (rule st)
  show "start mod 1000 = F" unfolding st' using F by (rule divmod_base)
  have t: "start div 1000 = t" unfolding st' using F by (rule divmod_base)
  have r: "0 \<le> r" "r < 3600" unfolding r_def using M S by auto
  have t2: "t = H * 3600 + r" unfolding t_def r_def by (simp add: algebra_simps)
  show "start div 1000 div 3600 = H" unfolding t t2 using r by (rule divmod_base)
  have m: "t mod 3600 = r" unfolding t2 using r by (rule divmod_base)
  show "start div 1000 mod 3600 div 60 = M" unfolding t m r_def using S by (rule divmod_base)
  have t3: "t = (H * 60 + M) * 60 + S" by (rule t_def)
  show "start div 1000 mod 60 = S" unfolding t unfolding t3 using S by (rule divmod_base)
qed

text \<open>
  Claim C7. For a chapter rendered at position \<open>i\<close> whose start offset decomposes into
  hours \<open>H\<close>, minutes \<open>M\<close>, seconds \<open>S\<close> and milliseconds \<open>F\<close>, the MDTA tag is exactly
  \<open>Menu <i># _<HH>_<MM>_<SS>_<mmm>: <title>\<close>, the hour, minute and second fields padded
  with zeros to two digits and the millisecond field to three; minutes and seconds have
  exactly two digits and milliseconds exactly three.
\<close>

theorem format_chapter_mdta_grammar:
  assumes "start_ms ch = ((H * 60 + M) * 60 + S) * 1000 + F"
      and "0 \<le> M" "M < 60" "0 \<le> S" "S < 60" "0 \<le> F" "F < 1000"
  shows "format_chapter_mdta i ch =
           ''Menu '' @ str_int i @ ''# _'' @ zero_padded 2 H @ ''_'' @ zero_padded 2 M @ ''_'' @
           zero_padded 2 S @ ''_'' @ zero_padded 3 F @ '': '' @ title ch
       \<and> length (zero_padded 2 M) = 2 \<and> length (zero_padded 2 S) = 2
       \<and> length (zero_padded 3 F) = 3"
proof -
  note u = hmsf_unique [OF assms]
  have "format_chapter_mdta i ch =
           ''Menu '' @ str_int i @ ''# _'' @ py_fmt0 2 H @ ''_'' @ py_fmt0 2 M @ ''_'' @
           py_fmt0 2 S @ ''_'' @ py_fmt0 3 F @ '': '' @ title ch"
    unfolding format_chapter_mdta_def Let_def u ..
  moreover have "length (zero_padded 2 M) = 2" "length (zero_padded 2 S) = 2"
    "length (zero_padded 3 F) = 3"
    using assms by (simp_all add: length_zero_padded)
  ultimately show ?thesis
    using assms by (simp add: py_fmt0_zero_padded_two py_fmt0_zero_padded_nonneg)
qed

theorem format_chapter_mdta_grammar_witness:
  "(let ch = \<lparr>title = ''The Seducer's Victim'', start_ms = 33970954,
               duration_ms = Some 2513893, file_path = None\<rparr>
    in start_ms ch = ((9 * 60 + 26) * 60 + 10) * 1000 + 954
     \<and> format_chapter_mdta 3 ch = ''Menu 3# _09_26_10_954: The Seducer's Victim'')"
proof -
  let ?ch = "\<lparr>title = ''The Seducer's Victim'', start_ms = 33970954,
               duration_ms = Some 2513893, file_path = None\<rparr>"
  have h: "start_ms ?ch = ((9 * 60 + 26) * 60 + 10) * 1000 + 954" by simp
  have "format_chapter_mdta 3 ?ch =
           ''Menu '' @ str_int 3 @ ''# _'' @ zero_padded 2 9 @ ''_'' @ zero_padded 2 26 @ ''_'' @
           zero_padded 2 10 @ ''_'' @ zero_padded 3 954 @ '': '' @ title ?ch"
    using format_chapter_mdta_grammar [OF h, of 3] by simp
  then show ?thesis
    by (simp add: zero_padded_def str_eval)
qed

section \<open>The primary metadata render\<close>

lemma foldl_append_concat: "foldl (\<lambda>acc x. acc @ f x) a xs = a @ concat (map f xs)"
  by (induction xs arbitrary: a) simp_all

lemma to_ffmpeg_format_block: "to_ffmpeg_format ch = chapter_block ch"
  by (cases "duration_ms ch") (simp_all add: to_ffmpeg_format_def chapter_block_def)

lemma to_ffmpeg_metadata_concat:
  "to_ffmpeg_metadata m =
     (if chapters m = [] then []
      else '';FFMETADATA1'' @ [CHR 0x0A] @ concat (map chapter_block (chapters m)))"
  by (simp add: to_ffmpeg_metadata_def foldl_append_concat to_ffmpeg_format_block)

text \<open>
  Claim C6 (amended). For every chapter model that holds at least one chapter, the primary
  metadata render is the header line followed by one block for every chapter, in the
  insertion order of the model; a block holds the millisecond timebase, the start offset,
  the end offset (start plus duration when a duration is present, the start otherwise)
  and the title. For the empty model the render is the empty text.
\<close>

theorem to_ffmpeg_metadata_blocks:
  "(chapters m \<noteq> [] \<longrightarrow>
      to_ffmpeg_metadata m =
        '';FFMETADATA1'' @ [CHR 0x0A] @ concat (map chapter_block (chapters m)))
   \<and> (chapters m = [] \<longrightarrow> to_ffmpeg_metadata m = [])"
  by (simp add: to_ffmpeg_metadata_concat)

theorem to_ffmpeg_metadata_blocks_witness:
  "(let m = \<lparr>chapters = [\<lparr>title = ''A'', start_ms = 0, duration_ms = Some 5000, file_path = None\<rparr>,
                          \<lparr>title = ''B'', start_ms = 5000, duration_ms = None, file_path = None\<rparr>],
              last_create_stats = []\<rparr>
    in chapters m \<noteq> []
     \<and> to_ffmpeg_metadata m =
         '';FFMETADATA1\<newline>[CHAPTER]\<newline>TIMEBASE=1/1000\<newline>START=0\<newline>END=5000\<newline>title=A\<newline>[CHAPTER]\<newline>TIMEBASE=1/1000\<newline>START=5000\<newline>END=5000\<newline>title=B\<newline>''
     \<and> to_ffmpeg_metadata (m\<lparr>chapters := []\<rparr>) = [])"
  using to_ffmpeg_metadata_blocks
    [of "\<lparr>chapters = [\<lparr>title = ''A'', start_ms = 0, duration_ms = Some 5000, file_path = None\<rparr>,
                      \<lparr>title = ''B'', start_ms = 5000, duration_ms = None, file_path = None\<rparr>],
          last_create_stats = []\<rparr>"]
    to_ffmpeg_metadata_blocks [of "\<lparr>chapters = [], last_create_stats = []\<rparr>"]
  by (simp add: chapter_block_def str_eval)

theorem to_ffmpeg_metadata_counterexample:
  "to_ffmpeg_metadata \<lparr>chapters = [], last_create_stats = []\<rparr> = []
   \<and> to_ffmpeg_metadata
       \<lparr>chapters = [\<lparr>title = ''A'', start_ms = 0, duration_ms = Some 5000, file_path = None\<rparr>,
                    \<lparr>title = ''B'', start_ms = 5000, duration_ms = None, file_path = None\<rparr>],
        last_create_stats = []\<rparr> =
     '';FFMETADATA1\<newline>[CHAPTER]\<newline>TIMEBASE=1/1000\<newline>START=0\<newline>END=5000\<newline>title=A\<newline>[CHAPTER]\<newline>TIMEBASE=1/1000\<newline>START=5000\<newline>END=5000\<newline>title=B\<newline>''"
  by (simp add: to_ffmpeg_metadata_def to_ffmpeg_format_def str_eval)

section \<open>Validation: the overlap warnings\<close>

lemma nth_adjacent_pairs:
  "map (\<lambda>i. (xs ! i, xs ! (i + 1))) [0..<length xs - 1] = adjacent_pairs xs"
  unfolding adjacent_pairs_def by (rule nth_equalityI) (auto simp: nth_tl)

lemma concat_map_if:
  "concat (map (\<lambda>x. if P x then [f x] else []) ys) = map f (filter P ys)"
  by (induction ys) auto

lemma sorted_adjacent_pairs:
  "sorted (map f xs) \<Longrightarrow> (a, b) \<in> set (adjacent_pairs xs) \<Longrightarrow> f a \<le> f b"
  unfolding adjacent_pairs_def
  by (induction xs rule: induct_list012) auto

lemma overlap_warnings_pairs:
  "overlap_warnings cs =
     map (\<lambda>(a, b). overlap_message a b)
       (filter (\<lambda>(a, b). case duration_ms a of
                            Some d \<Rightarrow> d \<noteq> 0 \<and> start_ms a + d > start_ms b
                          | None \<Rightarrow> False)
          (adjacent_pairs (sort_key start_ms cs)))"
proof -
  let ?sc = "sort_key start_ms cs"
  let ?P = "\<lambda>(a, b). case duration_ms a of
                         Some d \<Rightarrow> d \<noteq> 0 \<and> start_ms a + d > start_ms b
                       | None \<Rightarrow> False"
  let ?g = "\<lambda>p. if ?P p then [(\<lambda>(a, b). overlap_message a b) p] else []"
  have "overlap_warnings cs =
          concat (map ?g (map (\<lambda>i. (?sc ! i, ?sc ! (i + 1))) [0..<length ?sc - 1]))"
    unfolding overlap_warnings_def Let_def map_map
    by (intro arg_cong [where f = concat] map_cong refl) (simp split: option.split)
  also have "\<dots> = concat (map ?g (adjacent_pairs ?sc))"
    by (simp only: nth_adjacent_pairs)
  also have "\<dots> = map (\<lambda>(a, b). overlap_message a b) (filter ?P (adjacent_pairs ?sc))"
    by (rule concat_map_if)
  finally show ?thesis .
qed

lemma overlap_warnings_spec:
  "overlap_warnings cs =
     map (\<lambda>(a, b). overlap_message a b)
       (filter (\<lambda>(a, b). overlaps a b) (adjacent_pairs (sort_key start_ms cs)))"
proof -
  have "filter (\<lambda>(a, b). case duration_ms a of
                            Some d \<Rightarrow> d \<noteq> 0 \<and> start_ms a + d > start_ms b
                          | None \<Rightarrow> False)
          (adjacent_pairs (sort_key start_ms cs)) =
        filter (\<lambda>(a, b). overlaps a b) (adjacent_pairs (sort_key start_ms cs))"
  proof (rule filter_cong [OF refl], clarify)
    fix a b
    assume "(a, b) \<in> set (adjacent_pairs (sort_key start_ms cs))"
    then have "start_ms a \<le> start_ms b"
      by (rule sorted_adjacent_pairs [OF sorted_sort_key])
    then show "(case duration_ms a of
                  Some d \<Rightarrow> d \<noteq> 0 \<and> start_ms a + d > start_ms b
                | None \<Rightarrow> False) = overlaps a b"
      by (auto simp: overlaps_def split: option.split)
  qed
  then show ?thesis by (simp add: overlap_warnings_pairs)
qed

lemma is_overlap_warning_message: "is_overlap_warning (overlap_message a b)"
  by (simp add: is_overlap_warning_def overlap_message_def)

lemma not_overlap_warning_numbered: "\<not> is_overlap_warning (''Chapter '' @ str_nat i @ rest)"
  by (cases "str_nat i") (simp_all add: is_overlap_warning_def str_nat_nonempty)

lemma filter_concat_none:
  "(\<And>x w. x \<in> set xs \<Longrightarrow> w \<in> set (h x) \<Longrightarrow> \<not> P w) \<Longrightarrow> filter P (concat (map h xs)) = []"
  by (induction xs) (auto simp: filter_empty_conv)

lemma empty_title_warnings_no_overlap:
  "filter is_overlap_warning (empty_title_warnings cs) = []"
  unfolding empty_title_warnings_def
  by (rule filter_concat_none) (auto simp: not_overlap_warning_numbered [simplified] split: if_splits)

lemma time_warnings_no_overlap: "filter is_overlap_warning (time_warnings cs) = []"
  unfolding time_warnings_def
  by (rule filter_concat_none)
     (auto simp: not_overlap_warning_numbered [simplified] split: if_splits option.splits)

lemma overlap_warnings_all_overlap:
  "filter is_overlap_warning (overlap_warnings cs) = overlap_warnings cs"
  by (auto simp: overlap_warnings_spec filter_id_conv is_overlap_warning_message)

lemma validate_overlap_part:
  "filter is_overlap_warning (snd (validate m)) = overlap_warnings (chapters m)"
proof (cases "chapters m = []")
  case True
  then show ?thesis
    by (simp add: validate_def overlap_warnings_def is_overlap_warning_def)
next
  case False
  then show ?thesis
    by (simp add: validate_def empty_title_warnings_no_overlap time_warnings_no_overlap
        overlap_warnings_all_overlap)
qed

lemma map_sort_key_comp: "map f (sort_key (\<lambda>x. k (f x)) xs) = sort_key k (map f xs)"
proof (induction xs)
  case Nil
  show ?case by simp
next
  case (Cons x xs)
  have ins: "map f (insort_key (\<lambda>x. k (f x)) a ys) = insort_key k (f a) (map f ys)" for a ys
    by (induction ys) auto
  from Cons show ?case by (simp add: ins)
qed

lemma py_index_in: "0 \<le> i \<Longrightarrow> i < int (length xs) \<Longrightarrow> py_index xs i = Inr (xs ! nat i)"
  by (simp add: py_index_def)

lemma overlap_loop_in_range:
  assumes "\<forall>i\<in>set indices. 0 \<le> i \<and> i + 1 < int (length (list_at h a))"
  shows "overlap_loop h a indices w =
    Inr (w @ concat (map (\<lambda>i.
       let current = chapter_at h (list_at h a ! nat i);
           next_chapter = chapter_at h (list_at h a ! nat (i + 1))
       in (case duration_ms current of
             Some d \<Rightarrow> if d \<noteq> 0 \<and> start_ms current + d > start_ms next_chapter
                       then [overlap_message current next_chapter] else []
           | None \<Rightarrow> [])) indices))"
  using assms
proof (induction indices arbitrary: w)
  case Nil
  then show ?case by simp
next
  case (Cons i indices)
  then have i: "0 \<le> i" "i < int (length (list_at h a))" "0 \<le> i + 1"
      "i + 1 < int (length (list_at h a))"
    by auto
  show ?case
    using Cons.prems
    by (simp add: py_index_in i bind_err_def Cons.IH Let_def split: option.split)
qed

lemma validate_store_warnings:
  "snd (validate_store h r) =
     Inr (snd (validate \<lparr>chapters = map (chapter_at h) (list_at h r), last_create_stats = st\<rparr>))"
proof (cases "list_at h r = []")
  case True
  then show ?thesis by (simp add: validate_store_def validate_def)
next
  case False
  define S where "S = sort_key (\<lambda>c. start_ms (chapter_at h c)) (list_at h r)"
  define h1 where
    "h1 = h\<lparr>list_at := (list_at h)(next_addr h := S), next_addr := Suc (next_addr h)\<rparr>"
  let ?cs = "map (chapter_at h) (list_at h r)"
  have S: "sort_key start_ms ?cs = map (chapter_at h) S"
    unfolding S_def by (rule map_sort_key_comp [symmetric])
  have l1: "list_at h1 (next_addr h) = S" and c1: "chapter_at h1 = chapter_at h"
    by (simp_all add: h1_def)
  have idx: "\<forall>i\<in>set (py_range (int (length S) - 1)).
      0 \<le> i \<and> i + 1 < int (length (list_at h1 (next_addr h)))"
    by (auto simp: py_range_def l1)
  have "overlap_loop h1 (next_addr h) (py_range (int (length S) - 1)) w =
      Inr (w @ overlap_warnings ?cs)" for w
  proof -
    have n: "nat (int (length S) - 1) = length S - 1" by simp
    have "concat (map (\<lambda>i.
       let current = chapter_at h (S ! nat i);
           next_chapter = chapter_at h (S ! nat (i + 1))
       in (case duration_ms current of
             Some d \<Rightarrow> if d \<noteq> 0 \<and> start_ms current + d > start_ms next_chapter
                       then [overlap_message current next_chapter] else []
           | None \<Rightarrow> [])) (py_range (int (length S) - 1))) = overlap_warnings ?cs"
      unfolding overlap_warnings_def S py_range_def n map_map Let_def
    proof (intro arg_cong [where f = concat] map_cong)
      show "[0..<length S - 1] = [0..<length (map (chapter_at h) S) - 1]" by simp
    next
      fix x
      assume "x \<in> set [0..<length (map (chapter_at h) S) - 1]"
      then have x: "x < length S" "x + 1 < length S" by auto
      have m: "nat (int x + 1) = x + 1" by simp
      show "((\<lambda>i. case duration_ms (chapter_at h (S ! nat i)) of
                     None \<Rightarrow> []
                   | Some d \<Rightarrow>
                       if d \<noteq> 0 \<and> start_ms (chapter_at h (S ! nat i)) + d
                                  > start_ms (chapter_at h (S ! nat (i + 1)))
                       then [overlap_message (chapter_at h (S ! nat i))
                               (chapter_at h (S ! nat (i + 1)))]
                       else []) \<circ> int) x =
            (case duration_ms (map (chapter_at h) S ! x) of
               None \<Rightarrow> []
             | Some d \<Rightarrow>
                 if d \<noteq> 0 \<and> start_ms (map (chapter_at h) S ! x) + d
                            > start_ms (map (chapter_at h) S ! (x + 1))
                 then [overlap_message (map (chapter_at h) S ! x)
                         (map (chapter_at h) S ! (x + 1))]
                 else [])"
        by (simp only: o_apply nat_int m nth_map [OF x(1)] nth_map [OF x(2)])
    qed
    then show ?thesis
      using overlap_loop_in_range [OF idx, of w] by (simp add: l1 c1)
  qed
  then show ?thesis
    using False
    by (simp add: validate_store_def validate_def py_sorted_def Let_def S_def [symmetric]
        h1_def [symmetric] l1)
qed

lemma validate_store_keeps:
  "chapter_at (fst (validate_store h r)) = chapter_at h"
  "a < next_addr h \<Longrightarrow> list_at (fst (validate_store h r)) a = list_at h a"
  by (simp_all add: validate_store_def py_sorted_def Let_def)


text \<open>
  Claim C4. For every store and every chapter list in it, \<^verbatim>\<open>validate\<close> raises nothing: it
  returns a list of warnings. The overlap warnings among them are, in order, exactly one
  warning naming both titles, \<open>Chapters 'earlier' and 'later' overlap\<close>, for each adjacent
  pair of the chapter list sorted by \<open>start_ms\<close> in which the earlier chapter has a known
  duration and \<open>start_ms + duration_ms\<close> of the earlier exceeds \<open>start_ms\<close> of the later,
  and no other. Every list object that exists before the call, the chapter list of the
  live model among them, holds the same chapters after it, and every chapter object is
  unchanged: the sorted list is a new object.
\<close>

theorem validate_overlap_warnings:
  "(\<exists>warnings. snd (validate_store h self_chapters) = Inr warnings \<and>
       filter is_overlap_warning warnings =
         map (\<lambda>(earlier, later).
                ''Chapters '' @ [CHR 0x27] @ title earlier @ [CHR 0x27] @ '' and '' @
                [CHR 0x27] @ title later @ [CHR 0x27] @ '' overlap'')
           (filter (\<lambda>(earlier, later). overlaps earlier later)
              (adjacent_pairs
                 (sort_key start_ms (map (chapter_at h) (list_at h self_chapters))))))
   \<and> (a < next_addr h \<longrightarrow> list_at (fst (validate_store h self_chapters)) a = list_at h a)
   \<and> chapter_at (fst (validate_store h self_chapters)) = chapter_at h"
proof (intro conjI exI impI)
  let ?m = "\<lparr>chapters = map (chapter_at h) (list_at h self_chapters),
             last_create_stats = []\<rparr>"
  show "snd (validate_store h self_chapters) = Inr (snd (validate ?m))"
    by (rule validate_store_warnings)
  have "filter is_overlap_warning (snd (validate ?m)) = overlap_warnings (chapters ?m)"
    by (rule validate_overlap_part)
  then show "filter is_overlap_warning (snd (validate ?m)) =
      map (\<lambda>(earlier, later).
             ''Chapters '' @ [CHR 0x27] @ title earlier @ [CHR 0x27] @ '' and '' @
             [CHR 0x27] @ title later @ [CHR 0x27] @ '' overlap'')
        (filter (\<lambda>(earlier, later). overlaps earlier later)
           (adjacent_pairs
              (sort_key start_ms (map (chapter_at h) (list_at h self_chapters)))))"
    by (simp add: overlap_warnings_spec overlap_message_def)
  show "list_at (fst (validate_store h self_chapters)) a = list_at h a" if "a < next_addr h"
    using that by (rule validate_store_keeps)
  show "chapter_at (fst (validate_store h self_chapters)) = chapter_at h"
    by (rule validate_store_keeps)
qed

theorem validate_overlap_warnings_witness:
  "(0::nat) < next_addr
       \<lparr>list_at = (\<lambda>a. [])(0 := [1, 0]),
        chapter_at =
          (\<lambda>a. \<lparr>title = ''B'', start_ms = 3000, duration_ms = Some 1000, file_path = None\<rparr>)
          (0 := \<lparr>title = ''A'', start_ms = 0, duration_ms = Some 5000, file_path = None\<rparr>),
        next_addr = 1\<rparr>
   \<and> (\<exists>warnings.
         snd (validate_store
                \<lparr>list_at = (\<lambda>a. [])(0 := [1, 0]),
                 chapter_at =
                   (\<lambda>a. \<lparr>title = ''B'', start_ms = 3000, duration_ms = Some 1000,
                          file_path = None\<rparr>)
                   (0 := \<lparr>title = ''A'', start_ms = 0, duration_ms = Some 5000,
                           file_path = None\<rparr>),
                 next_addr = 1\<rparr> 0) = Inr warnings
         \<and> filter is_overlap_warning warnings =
               [''Chapters '' @ [CHR 0x27] @ ''A'' @ [CHR 0x27] @ '' and '' @ [CHR 0x27] @
                ''B'' @ [CHR 0x27] @ '' overlap''])
   \<and> list_at (fst (validate_store
                \<lparr>list_at = (\<lambda>a. [])(0 := [1, 0]),
                 chapter_at =
                   (\<lambda>a. \<lparr>title = ''B'', start_ms = 3000, duration_ms = Some 1000,
                          file_path = None\<rparr>)
                   (0 := \<lparr>title = ''A'', start_ms = 0, duration_ms = Some 5000,
                           file_path = None\<rparr>),
                 next_addr = 1\<rparr> 0)) 0 = [1, 0]"
  using validate_overlap_warnings [where a = 0 and self_chapters = 0 and h =
      "\<lparr>list_at = (\<lambda>a. [])(0 := [1, 0]),
        chapter_at =
          (\<lambda>a. \<lparr>title = ''B'', start_ms = 3000, duration_ms = Some 1000, file_path = None\<rparr>)
          (0 := \<lparr>title = ''A'', start_ms = 0, duration_ms = Some 5000, file_path = None\<rparr>),
        next_addr = 1\<rparr>"]
  by (simp add: adjacent_pairs_def overlaps_def)

text \<open>
  On the store of the example above \<^verbatim>\<open>sort_by_start_time\<close> does write the list of the live
  model, which \<^verbatim>\<open>validate\<close> leaves as it is.
\<close>

lemma sort_by_start_time_store_writes:
  "list_at (sort_by_start_time_store
              \<lparr>list_at = (\<lambda>a. [])(0 := [1, 0]),
               chapter_at =
                 (\<lambda>a. \<lparr>title = ''B'', start_ms = 3000, duration_ms = Some 1000,
                        file_path = None\<rparr>)
                 (0 := \<lparr>title = ''A'', start_ms = 0, duration_ms = Some 5000,
                         file_path = None\<rparr>),
               next_addr = 1\<rparr> 0) 0 = [0, 1]"
  by (simp add: sort_by_start_time_store_def py_list_sort_def)
section \<open>Validation: the two examples\<close>

text \<open>
  Claim C5 (amended). Validation on a model holding exactly chapter A at start 0 with
  duration 5000 and chapter B at start 3000 with no duration reports exactly one overlap
  warning naming A and B: the earlier chapter has a known duration and \<open>0 + 5000 > 3000\<close>.
  With B at start 3000 and duration 1000 it reports exactly one overlap warning naming A
  and B as well.
\<close>

theorem validate_overlap_examples:
  "snd (validate \<lparr>chapters = [Chapter_init ''A'' 0 (Some 5000) None,
                               Chapter_init ''B'' 3000 None None],
                   last_create_stats = []\<rparr>) =
     [''Chapters '' @ [CHR 0x27] @ ''A'' @ [CHR 0x27] @ '' and '' @ [CHR 0x27] @ ''B'' @
      [CHR 0x27] @ '' overlap'']
   \<and> snd (validate \<lparr>chapters = [Chapter_init ''A'' 0 (Some 5000) None,
                                 Chapter_init ''B'' 3000 (Some 1000) None],
                     last_create_stats = []\<rparr>) =
     [''Chapters '' @ [CHR 0x27] @ ''A'' @ [CHR 0x27] @ '' and '' @ [CHR 0x27] @ ''B'' @
      [CHR 0x27] @ '' overlap'']"
  by (simp add: validate_def Chapter_init_def clean_title_examples empty_title_warnings_def
      time_warnings_def overlap_warnings_def overlap_message_def py_strip_def py_isspace_def
      enumerate_simps)

theorem validate_no_duration_counterexample:
  "filter is_overlap_warning
     (snd (validate \<lparr>chapters = [Chapter_init ''A'' 0 (Some 5000) None,
                                 Chapter_init ''B'' 3000 None None],
                     last_create_stats = []\<rparr>)) \<noteq> []"
  by (simp add: validate_def Chapter_init_def clean_title_examples empty_title_warnings_def
      time_warnings_def overlap_warnings_def overlap_message_def py_strip_def py_isspace_def
      enumerate_simps is_overlap_warning_def)

section \<open>Title cleaning\<close>

lemma strip_extension_none: "\<not> has_extension t \<Longrightarrow> strip_extension t = t"
  by (auto simp: has_extension_def strip_extension_def)

lemma clean_title_plain:
  assumes "\<not> has_extension t" "label_rest t = None"
  shows "clean_title t = (if light_cleanup t = [] then t else light_cleanup t)"
  using assms by (simp add: clean_title_def light_cleanup_def strip_extension_none)

lemma clean_title_filename:
  assumes "has_extension t \<or> label_rest t \<noteq> None"
  shows "clean_title t =
           (let r = light_cleanup (case label_rest (strip_extension t) of
                                     Some r \<Rightarrow> r | None \<Rightarrow> strip_extension t)
            in if r = [] then t else r)"
proof (cases "has_extension t")
  case True
  then show ?thesis by (simp add: clean_title_def light_cleanup_def Let_def)
next
  case False
  with assms have "label_rest t \<noteq> None" by simp
  with False show ?thesis
    by (auto simp: clean_title_def light_cleanup_def Let_def strip_extension_none)
qed

text \<open>
  Claim C2 (amended). Title normalization is gated. For every title on which the extension
  pattern does not match (the title does not end in a recognized audio extension, also not
  just before one final newline) and that does not begin with an optional \<open>track\<close> word,
  a number and a separator, the result is the title after the light cleanup, or the title
  itself, unmodified, when the light cleanup leaves nothing. For every other title the
  extension and the leading numeric label are stripped before the light cleanup, again
  with the original title as the result when nothing is left:
  \<open>01 - Intro.mp3\<close> gives \<open>Intro\<close> and \<open>Track 02_Chapter Two.m4b\<close> gives \<open>Chapter Two\<close>.
\<close>

theorem clean_title_gated:
  "(\<not> has_extension t \<and> label_rest t = None \<longrightarrow>
      clean_title t = (if light_cleanup t = [] then t else light_cleanup t))
   \<and> (has_extension t \<or> label_rest t \<noteq> None \<longrightarrow>
      clean_title t =
        (let r = light_cleanup (case label_rest (strip_extension t) of
                                  Some r \<Rightarrow> r | None \<Rightarrow> strip_extension t)
         in if r = [] then t else r))
   \<and> clean_title ''01 - Intro.mp3'' = ''Intro''
   \<and> clean_title ''Track 02_Chapter Two.m4b'' = ''Chapter Two''
   \<and> clean_title ''The Seducer's Victim'' = ''The Seducer's Victim''"
  using clean_title_plain [of t] clean_title_filename [of t]
  by (simp only: clean_title_examples) blast

theorem clean_title_gated_witness:
  "\<not> has_extension ''The Seducer's Victim'' \<and> label_rest ''The Seducer's Victim'' = None
   \<and> clean_title ''The Seducer's Victim'' = light_cleanup ''The Seducer's Victim''
   \<and> has_extension ''01 - Intro.mp3''
   \<and> clean_title ''01 - Intro.mp3'' = light_cleanup ''Intro''"
proof -
  have a: "\<not> has_extension ''The Seducer's Victim''" "label_rest ''The Seducer's Victim'' = None"
    "light_cleanup ''The Seducer's Victim'' \<noteq> []"
    by (simp_all add: clean_eval light_cleanup_def)
  have b: "has_extension ''01 - Intro.mp3''"
    "label_rest (strip_extension ''01 - Intro.mp3'') = Some ''Intro''"
    "light_cleanup ''Intro'' \<noteq> []"
    by (simp_all add: clean_eval light_cleanup_def)
  from clean_title_gated [of "''The Seducer's Victim''"] a
  have 1: "clean_title ''The Seducer's Victim'' = light_cleanup ''The Seducer's Victim''"
    by simp
  from clean_title_gated [of "''01 - Intro.mp3''"] b
  have 2: "clean_title ''01 - Intro.mp3'' = light_cleanup ''Intro''"
    by (simp add: Let_def)
  from a b 1 2 show ?thesis by simp
qed

theorem clean_title_gate_counterexample:
  "\<not> ends_with_ext ''_'' \<and> label_rest ''_'' = None
   \<and> light_cleanup ''_'' = [] \<and> clean_title ''_'' = ''_''
   \<and> \<not> ends_with_ext ''a.mp3\<newline>'' \<and> label_rest ''a.mp3\<newline>'' = None
   \<and> light_cleanup ''a.mp3\<newline>'' = ''a.mp3'' \<and> clean_title ''a.mp3\<newline>'' = ''a''"
  by (simp add: clean_eval light_cleanup_def)

section \<open>Which operations clean the title they store\<close>

lemma add_chapter_title: "title (snd (add_chapter m t s d p)) = clean_title t"
  by (simp add: add_chapter_def Chapter_init_def Let_def)

lemma add_chapter_chapters:
  "chapters (fst (add_chapter m t s d p)) = chapters m @ [Chapter_init t s d p]"
  by (simp add: add_chapter_def Let_def)

lemma update_chapter_title:
  assumes "in_range index (chapters m)"
  shows "title (chapters (update_chapter m index (Some t) s d) ! nat index) = clean_title t"
  using assms
  by (cases s; cases d) (simp_all add: update_chapter_def in_range_def Let_def nat_less_iff)

text \<open>
  Claim C10. Construction and \<^verbatim>\<open>update_chapter\<close> store the cleaned form of the title
  they are given; \<^verbatim>\<open>auto_name_chapters\<close> stores the formatted pattern as it is: with the
  pattern \<open>Chapter_{num}\<close> the stored title is \<open>Chapter_1\<close>, whose cleaned form is
  \<open>Chapter 1\<close>.
\<close>

theorem auto_name_chapters_stores_raw:
  "title (snd (add_chapter m t s d p)) = clean_title t
   \<and> title (chapters (update_chapter
        \<lparr>chapters = [\<lparr>title = ''A'', start_ms = 0, duration_ms = None, file_path = None\<rparr>],
         last_create_stats = []\<rparr> 0 (Some t) None None) ! 0) = clean_title t
   \<and> auto_name_chapters
        \<lparr>chapters = [\<lparr>title = ''A'', start_ms = 0, duration_ms = None, file_path = None\<rparr>],
         last_create_stats = []\<rparr> ''Chapter_{num}'' =
       (\<lparr>chapters = [\<lparr>title = ''Chapter_1'', start_ms = 0, duration_ms = None,
                       file_path = None\<rparr>],
         last_create_stats = []\<rparr>, Returns ())
   \<and> clean_title ''Chapter_1'' = ''Chapter 1''"
  by (simp add: add_chapter_title update_chapter_def in_range_def auto_name_chapters_def
      str_eval clean_title_examples)

section \<open>Chapters from explicit timestamps\<close>

lemma foldl_snoc_chapters:
  "foldl (\<lambda>acc i. acc\<lparr>chapters := chapters acc @ [g i]\<rparr>) m0 idx =
     m0\<lparr>chapters := chapters m0 @ map g idx\<rparr>"
  by (induction idx arbitrary: m0) simp_all

lemma map_nth_fun: "map (\<lambda>i. f (xs ! i)) [0..<length xs] = map f xs"
  by (rule nth_equalityI) simp_all

lemma parse_all_ok:
  "(\<forall>p\<in>set ts. \<not> isl (parse_timestamp (fst p))) \<Longrightarrow>
     parse_all ts = Inr (map (\<lambda>p. (projr (parse_timestamp (fst p)), snd p)) ts)"
proof (induction ts)
  case Nil
  then show ?case by simp
next
  case (Cons p ts)
  obtain s t where p: "p = (s, t)" by (cases p)
  from Cons.prems p obtain v where v: "parse_timestamp s = Inr v"
    by (cases "parse_timestamp s") auto
  from Cons show ?case by (simp add: p v bind_err_def)
qed

lemma parse_all_fail:
  "(\<exists>p\<in>set ts. isl (parse_timestamp (fst p))) \<Longrightarrow> isl (parse_all ts)"
proof (induction ts)
  case Nil
  then show ?case by simp
next
  case (Cons p ts)
  obtain s t where p: "p = (s, t)" by (cases p)
  show ?case
  proof (cases "parse_timestamp s")
    case (Inl e)
    then show ?thesis by (simp add: p bind_err_def)
  next
    case (Inr v)
    with Cons p have "isl (parse_all ts)" by auto
    then show ?thesis by (cases "parse_all ts") (simp_all add: p Inr bind_err_def)
  qed
qed

lemma create_from_timestamps_chapters:
  assumes "parse_all ts = Inr ps"
  shows "create_from_timestamps m ts =
           (m\<lparr>chapters := map (timed_chapter (sort_key fst ps)) [0..<length ps]\<rparr>, None)"
proof -
  let ?p = "sort_key fst ps"
  have step: "foldl (\<lambda>acc i.
                 let (start, t) = ?p ! i;
                     dur = (if int i < int (length ?p) - 1
                            then Some (fst (?p ! (i + 1)) - start) else None)
                 in fst (add_chapter acc t start dur None)) m0 idx =
              foldl (\<lambda>acc i. acc\<lparr>chapters := chapters acc @ [timed_chapter ?p i]\<rparr>) m0 idx"
    for m0 idx
    by (rule foldl_cong) (auto simp: add_chapter_def timed_chapter_def Let_def split_def)
  have "create_from_timestamps m ts =
          (foldl (\<lambda>acc i.
                 let (start, t) = ?p ! i;
                     dur = (if int i < int (length ?p) - 1
                            then Some (fst (?p ! (i + 1)) - start) else None)
                 in fst (add_chapter acc t start dur None)) (m\<lparr>chapters := []\<rparr>)
             [0..<length ?p], None)"
    unfolding create_from_timestamps_def assms by (simp only: Let_def sum.case)
  then show ?thesis
    unfolding step foldl_snoc_chapters by simp
qed

lemma create_from_timestamps_raises:
  assumes "\<exists>p\<in>set ts. isl (parse_timestamp (fst p))"
  shows "\<exists>e. create_from_timestamps m ts = (m\<lparr>chapters := []\<rparr>, Some e)"
  using parse_all_fail [OF assms]
  by (cases "parse_all ts") (simp_all add: create_from_timestamps_def)

lemma create_from_timestamps_example:
  "create_from_timestamps m [(''00:05:00'', ''B''), (''00:00:00'', ''A'')] =
     (m\<lparr>chapters := [\<lparr>title = ''A'', start_ms = 0, duration_ms = Some 300000, file_path = None\<rparr>,
                     \<lparr>title = ''B'', start_ms = 300000, duration_ms = None, file_path = None\<rparr>]\<rparr>,
      None)"
proof -
  have "parse_all [(''00:05:00'', ''B''), (''00:00:00'', ''A'')] = Inr [(300000, ''B''), (0, ''A'')]"
    by (simp add: parse_timestamp_examples bind_err_def)
  from create_from_timestamps_chapters [OF this, of m]
  show ?thesis
    by (simp add: timed_chapter_def Chapter_init_def clean_title_examples upt_rec [of 0]
        upt_rec [of "Suc 0"] numeral_2_eq_2)
qed

text \<open>
  Claim C3. For every list of (time text, title) pairs whose time texts all parse,
  \<^verbatim>\<open>create_from_timestamps\<close> returns normally with a chapter list that replaces the old
  one and holds one chapter for every pair, with the parsed start and the cleaned title;
  the chapters are sorted by \<open>start_ms\<close> whatever the order of the input, the duration
  of every chapter but the last is the difference to the start of the next one, and the
  last chapter has no duration. The input \<open>[("00:05:00", "B"), ("00:00:00", "A")]\<close> gives
  A at 0 with duration 300000 followed by B at 300000 with no duration.
\<close>

theorem create_from_timestamps_sorted:
  assumes "\<forall>p\<in>set ts. \<not> isl (parse_timestamp (fst p))"
  shows "(let r = create_from_timestamps m ts; cs = chapters (fst r)
          in snd r = None
           \<and> length cs = length ts
           \<and> sorted (map start_ms cs)
           \<and> map start_ms cs = sort (map (\<lambda>p. projr (parse_timestamp (fst p))) ts)
           \<and> mset (map (\<lambda>c. (start_ms c, title c)) cs) =
               mset (map (\<lambda>p. (projr (parse_timestamp (fst p)), clean_title (snd p))) ts)
           \<and> (\<forall>k. Suc k < length cs \<longrightarrow>
                 duration_ms (cs ! k) = Some (start_ms (cs ! Suc k) - start_ms (cs ! k)))
           \<and> (cs \<noteq> [] \<longrightarrow> duration_ms (last cs) = None))
       \<and> create_from_timestamps m [(''00:05:00'', ''B''), (''00:00:00'', ''A'')] =
           (m\<lparr>chapters := [\<lparr>title = ''A'', start_ms = 0, duration_ms = Some 300000,
                             file_path = None\<rparr>,
                           \<lparr>title = ''B'', start_ms = 300000, duration_ms = None,
                             file_path = None\<rparr>]\<rparr>,
            None)"
proof -
  define ps where "ps = map (\<lambda>p. (projr (parse_timestamp (fst p)), snd p)) ts"
  define p where "p = sort_key fst ps"
  define cs where "cs = map (timed_chapter p) [0..<length ps]"
  have len: "length p = length ps" "length ps = length ts" by (simp_all add: p_def ps_def)
  have r: "create_from_timestamps m ts = (m\<lparr>chapters := cs\<rparr>, None)"
    unfolding cs_def p_def
    by (rule create_from_timestamps_chapters) (simp add: ps_def parse_all_ok [OF assms])
  have starts: "map start_ms cs = map fst p"
    unfolding cs_def len(1) [symmetric]
    by (simp add: timed_chapter_def Chapter_init_def o_def map_nth_fun)
  have titles: "map (\<lambda>c. (start_ms c, title c)) cs = map (\<lambda>q. (fst q, clean_title (snd q))) p"
    unfolding cs_def len(1) [symmetric]
    using map_nth_fun [of "\<lambda>q. (fst q, clean_title (snd q))" p]
    by (simp add: timed_chapter_def Chapter_init_def o_def)
  have s1: "sorted (map start_ms cs)" unfolding starts p_def by (rule sorted_sort_key)
  have "sort (map fst ps) = map fst p"
    unfolding p_def by (rule properties_for_sort) (simp_all add: sorted_sort_key)
  then have s2: "map start_ms cs = sort (map (\<lambda>p. projr (parse_timestamp (fst p))) ts)"
    by (simp add: starts ps_def o_def)
  have "mset (map (\<lambda>q. (fst q, clean_title (snd q))) p) =
          mset (map (\<lambda>q. (fst q, clean_title (snd q))) ps)"
    unfolding p_def by simp
  then have s3: "mset (map (\<lambda>c. (start_ms c, title c)) cs) =
               mset (map (\<lambda>p. (projr (parse_timestamp (fst p)), clean_title (snd p))) ts)"
    by (simp add: titles ps_def o_def)
  have s4: "duration_ms (cs ! k) = Some (start_ms (cs ! Suc k) - start_ms (cs ! k))"
    if "Suc k < length cs" for k
    using that by (simp add: cs_def timed_chapter_def Chapter_init_def len)
  have s5: "duration_ms (last cs) = None" if "cs \<noteq> []"
  proof -
    from that have n: "0 < length ps" by (simp add: cs_def)
    then have "last cs = timed_chapter p (length ps - 1)"
      by (simp add: cs_def last_map last_upt)
    then show ?thesis using n by (simp add: timed_chapter_def Chapter_init_def len)
  qed
  have "length cs = length ts" by (simp add: cs_def len)
  with s1 s2 s3 s4 s5 show ?thesis
    by (simp add: r Let_def create_from_timestamps_example)
qed

theorem create_from_timestamps_sorted_witness:
  "\<not> isl (parse_timestamp ''00:05:00'') \<and> \<not> isl (parse_timestamp ''00:00:00'')
   \<and> chapters (fst (create_from_timestamps
         \<lparr>chapters = [\<lparr>title = ''Z'', start_ms = 7, duration_ms = None, file_path = None\<rparr>],
          last_create_stats = []\<rparr>
         [(''00:05:00'', ''B''), (''00:00:00'', ''A'')])) =
       [\<lparr>title = ''A'', start_ms = 0, duration_ms = Some 300000, file_path = None\<rparr>,
        \<lparr>title = ''B'', start_ms = 300000, duration_ms = None, file_path = None\<rparr>]"
proof -
  have h: "\<forall>p\<in>set [(''00:05:00'', ''B''), (''00:00:00'', ''A'')].
             \<not> isl (parse_timestamp (fst p))"
    by (simp add: parse_timestamp_examples)
  from create_from_timestamps_sorted [OF h]
  have "create_from_timestamps
          \<lparr>chapters = [\<lparr>title = ''Z'', start_ms = 7, duration_ms = None, file_path = None\<rparr>],
           last_create_stats = []\<rparr>
          [(''00:05:00'', ''B''), (''00:00:00'', ''A'')] =
        (\<lparr>chapters = [\<lparr>title = ''Z'', start_ms = 7, duration_ms = None, file_path = None\<rparr>],
           last_create_stats = []\<rparr>
           \<lparr>chapters := [\<lparr>title = ''A'', start_ms = 0, duration_ms = Some 300000,
                             file_path = None\<rparr>,
                           \<lparr>title = ''B'', start_ms = 300000, duration_ms = None,
                             file_path = None\<rparr>]\<rparr>,
         None)"
    by (rule conjunct2)
  with h show ?thesis by simp
qed

section \<open>Timestamp parsing: the failures\<close>

































section \<open>Index operations out of range\<close>

text \<open>
  Claim C9. For every chapter model and every index outside \<open>[0, chapter count)\<close>, also the
  index equal to the chapter count and every negative index, \<^verbatim>\<open>remove_chapter\<close>,
  \<^verbatim>\<open>update_chapter\<close> and \<^verbatim>\<open>reorder_chapter\<close> (with either of its two indices out of
  range) return the model unchanged; the model has no error result for them.
\<close>

theorem out_of_range_noop:
  assumes "index < 0 \<or> int (length (chapters m)) \<le> index"
  shows "remove_chapter m index = m
       \<and> update_chapter m index new_title new_start new_duration = m
       \<and> reorder_chapter m index other = m
       \<and> reorder_chapter m other index = m"
  using assms by (auto simp: remove_chapter_def update_chapter_def reorder_chapter_def in_range_def)

theorem out_of_range_noop_witness:
  "(let m = \<lparr>chapters = [Chapter_init ''A'' 0 (Some 5000) None], last_create_stats = []\<rparr>
    in (1 < (0::int) \<or> int (length (chapters m)) \<le> 1)
     \<and> remove_chapter m 1 = m
     \<and> update_chapter m 1 (Some ''B'') (Some 7) (Some 9) = m
     \<and> reorder_chapter m 1 0 = m
     \<and> reorder_chapter m 0 1 = m)"
  using out_of_range_noop
    [of 1 "\<lparr>chapters = [Chapter_init ''A'' 0 (Some 5000) None], last_create_stats = []\<rparr>"
        "Some ''B''" "Some 7" "Some 9" 0]
  by (simp add: Let_def)

end
